theory Spec2Isabelle
  imports Complex_Main "HOL-Library.Word"
begin

section \<open>Text primitives of the Python runtime\<close>

text \<open>
  Text is modelled as \<^typ>\<open>string\<close>, one \<^typ>\<open>char\<close> per code point, for the code
  points below 256 (ASCII and Latin-1). The character classes are those of CPython on these
  code points. They are given on the bits of the code (\<open>b0\<close> is the least significant
  bit), which the kernel evaluates quickly; the lemmas \<open>is_space_code\<close>, \<open>is_upper_code\<close>,
  \<open>is_lower_code\<close>, \<open>is_digit_code\<close>, \<open>is_word_code\<close> and \<open>lower_char_code\<close> below restate
  them on the numeric codes.
\<close>

fun is_space :: "char \<Rightarrow> bool" where
  \<comment> \<open>\<open>str.isspace\<close> and the class \<open>\s\<close>: codes 9 to 13, 28 to 32, 133 and 160\<close>
  "is_space (Char b0 b1 b2 b3 b4 b5 b6 b7) \<longleftrightarrow>
     \<not> b6 \<and>
     (if b7 then \<not> b4 \<and> \<not> b3 \<and> \<not> b1 \<and> (if b5 then \<not> b2 \<and> \<not> b0 else b2 \<and> b0)
      else if b5 then \<not> (b0 \<or> b1 \<or> b2 \<or> b3 \<or> b4)
      else if b4 then b3 \<and> b2
      else b3 \<and> (if b2 then \<not> b1 else b1 \<or> b0))"

fun is_upper :: "char \<Rightarrow> bool" where
  \<comment> \<open>the characters that \<open>str.lower\<close> changes: codes 65 to 90, and 192 to 222 but 215\<close>
  "is_upper (Char b0 b1 b2 b3 b4 b5 b6 b7) \<longleftrightarrow>
     b6 \<and> \<not> b5 \<and>
     (if b7 then \<not> (b4 \<and> b2 \<and> b1 \<and> b0)
      else (b0 \<or> b1 \<or> b2 \<or> b3 \<or> b4) \<and> \<not> (b4 \<and> b3 \<and> (b2 \<or> (b1 \<and> b0))))"

fun is_lower :: "char \<Rightarrow> bool" where
  \<comment> \<open>the class \<open>[a-z]\<close>: codes 97 to 122\<close>
  "is_lower (Char b0 b1 b2 b3 b4 b5 b6 b7) \<longleftrightarrow>
     \<not> b7 \<and> b6 \<and> b5 \<and> (b0 \<or> b1 \<or> b2 \<or> b3 \<or> b4) \<and> \<not> (b4 \<and> b3 \<and> (b2 \<or> (b1 \<and> b0)))"

fun is_digit :: "char \<Rightarrow> bool" where
  \<comment> \<open>\<open>0\<close> to \<open>9\<close>: codes 48 to 57\<close>
  "is_digit (Char b0 b1 b2 b3 b4 b5 b6 b7) \<longleftrightarrow>
     \<not> b7 \<and> \<not> b6 \<and> b5 \<and> b4 \<and> \<not> (b3 \<and> (b2 \<or> b1))"

fun is_word :: "char \<Rightarrow> bool" where
  \<comment> \<open>the class \<open>\w\<close>: the underscore and what \<open>str.isalnum\<close> accepts, that is the ASCII
      letters and digits, the codes 170, 178, 179, 181, 185, 186, 188, 189 and 190, and the
      codes from 192 on but 215 and 247\<close>
  "is_word (Char b0 b1 b2 b3 b4 b5 b6 b7) \<longleftrightarrow>
     (if b7 then
        (if b6 then \<not> (b4 \<and> \<not> b3 \<and> b2 \<and> b1 \<and> b0)
         else Char b0 b1 b2 b3 b4 b5 b6 b7
                \<in> set [CHR 0xAA, CHR 0xB2, CHR 0xB3, CHR 0xB5, CHR 0xB9, CHR 0xBA, CHR 0xBC,
                        CHR 0xBD, CHR 0xBE])
      else is_upper (Char b0 b1 b2 b3 b4 b5 b6 b7) \<or> is_lower (Char b0 b1 b2 b3 b4 b5 b6 b7)
           \<or> is_digit (Char b0 b1 b2 b3 b4 b5 b6 b7)
           \<or> Char b0 b1 b2 b3 b4 b5 b6 b7 = CHR ''_'')"

fun lower_char :: "char \<Rightarrow> char" where
  \<comment> \<open>an upper-case letter becomes the letter 32 codes above it\<close>
  "lower_char (Char b0 b1 b2 b3 b4 b5 b6 b7) =
     (if is_upper (Char b0 b1 b2 b3 b4 b5 b6 b7) then Char b0 b1 b2 b3 b4 True b6 b7
      else Char b0 b1 b2 b3 b4 b5 b6 b7)"

definition lower :: "string \<Rightarrow> string" where
  \<comment> \<open>\<open>str.lower()\<close>\<close>
  "lower s = map lower_char s"

definition strip :: "string \<Rightarrow> string" where
  \<comment> \<open>\<open>str.strip()\<close>: white space removed at both ends\<close>
  "strip s = rev (dropWhile is_space (rev (dropWhile is_space s)))"

fun startswith :: "string \<Rightarrow> string \<Rightarrow> bool" where
  \<comment> \<open>\<open>s.startswith(p)\<close>, written \<open>startswith p s\<close>\<close>
  "startswith [] s = True"
| "startswith (p # ps) [] = False"
| "startswith (p # ps) (c # cs) = (if p = c then startswith ps cs else False)"

fun contains :: "string \<Rightarrow> string \<Rightarrow> bool" where
  \<comment> \<open>the substring test \<open>sub in s\<close>, written \<open>contains sub s\<close>\<close>
  "contains sub [] = (sub = [])"
| "contains sub (c # cs) = (if startswith sub (c # cs) then True else contains sub cs)"

fun startswith_ci :: "string \<Rightarrow> string \<Rightarrow> bool" where
  \<comment> \<open>a literal pattern matched at the start of the text under \<open>re.IGNORECASE\<close>\<close>
  "startswith_ci [] s = True"
| "startswith_ci (p # ps) [] = False"
| "startswith_ci (p # ps) (c # cs) =
     (if lower_char p = lower_char c then startswith_ci ps cs else False)"

fun contains_ci :: "string \<Rightarrow> string \<Rightarrow> bool" where
  \<comment> \<open>the literal occurs somewhere in the text, letter case ignored\<close>
  "contains_ci sub [] = (sub = [])"
| "contains_ci sub (c # cs) = (if startswith_ci sub (c # cs) then True else contains_ci sub cs)"

fun join :: "string \<Rightarrow> string list \<Rightarrow> string" where
  \<comment> \<open>\<open>sep.join(xs)\<close>\<close>
  "join sep [] = []"
| "join sep [x] = x"
| "join sep (x # y # ys) = x @ sep @ join sep (y # ys)"

definition digit_char :: "nat \<Rightarrow> char" where
  "digit_char d = ''0123456789'' ! d"

fun str_nat :: "nat \<Rightarrow> string" where
  \<comment> \<open>\<open>str(n)\<close> for a non-negative integer: its decimal digits\<close>
  "str_nat n = (if n < 10 then [digit_char n] else str_nat (n div 10) @ [digit_char (n mod 10)])"

declare str_nat.simps [simp del]

definition str_int :: "int \<Rightarrow> string" where
  \<comment> \<open>\<open>str(i)\<close>, as an f-string formats an integer\<close>
  "str_int i = (if i < 0 then CHR ''-'' # str_nat (nat (- i)) else str_nat (nat i))"


section \<open>The dual-channel parser\<close>

text \<open>
  \<open>_parse_dual_output\<close> uses \<open>re.search\<close> with \<open>re.DOTALL | re.IGNORECASE\<close>. Both
  patterns start with a literal marker, followed by a greedy \<open>\s*\<close> and a lazy group
  \<open>(.*?)\<close> that stops at the first position where what follows the group matches.
  Without \<open>re.MULTILINE\<close> the anchor \<open>$\<close> matches at the end of the text and just
  before a line feed that ends the text. The end of the text always satisfies what follows
  the group, so the search succeeds at the leftmost occurrence of the marker and never gives
  back white space that \<open>\s*\<close> has consumed.
\<close>

definition dollar :: "string \<Rightarrow> bool" where
  \<comment> \<open>\<open>$\<close> matches in front of the remaining text \<open>s\<close>\<close>
  "dollar s \<longleftrightarrow> s = [] \<or> s = [CHR 0x0A]"

fun after_marker :: "string \<Rightarrow> string \<Rightarrow> string option" where
  \<comment> \<open>the text behind the leftmost occurrence of the marker, \<open>None\<close> where it does not occur\<close>
  "after_marker m [] = (if m = [] then Some [] else None)"
| "after_marker m (c # cs) =
     (if startswith_ci m (c # cs) then Some (drop (length m) (c # cs)) else after_marker m cs)"

fun lazy_answer :: "string \<Rightarrow> string" where
  \<comment> \<open>\<open>(.*?)(?=\[INSTRUCTION\]|$)\<close>\<close>
  "lazy_answer [] = []"
| "lazy_answer (c # cs) =
     (if startswith_ci ''[INSTRUCTION]'' (c # cs) \<or> dollar (c # cs) then []
      else c # lazy_answer cs)"

fun lazy_to_end :: "string \<Rightarrow> string" where
  \<comment> \<open>\<open>(.*?)$\<close>\<close>
  "lazy_to_end [] = []"
| "lazy_to_end (c # cs) = (if dollar (c # cs) then [] else c # lazy_to_end cs)"

definition answer_match :: "string \<Rightarrow> string option" where
  \<comment> \<open>group 1 of \<open>re.search(r'\[ANSWER\]\s*(.*?)(?=\[INSTRUCTION\]|$)', content, ...)\<close>\<close>
  "answer_match content =
     map_option (\<lambda>rest. lazy_answer (dropWhile is_space rest)) (after_marker ''[ANSWER]'' content)"

definition instruction_match :: "string \<Rightarrow> string option" where
  \<comment> \<open>group 1 of \<open>re.search(r'\[INSTRUCTION\]\s*(.*?)$', content, ...)\<close>\<close>
  "instruction_match content =
     map_option (\<lambda>rest. lazy_to_end (dropWhile is_space rest))
       (after_marker ''[INSTRUCTION]'' content)"

definition parse_dual_output :: "string \<Rightarrow> string \<times> string" where
  \<comment> \<open>\<open>_parse_dual_output\<close>: the pair \<open>(answer_text, instruction_text)\<close>; the empty string
      stands for an absent part, as in the source\<close>
  "parse_dual_output content =
     (let answer_text = (case answer_match content of Some g \<Rightarrow> strip g | None \<Rightarrow> []);
          instruction_text = (case instruction_match content of Some g \<Rightarrow> strip g | None \<Rightarrow> [])
      in if answer_text = [] \<and> instruction_text = [] then (strip content, instruction_text)
         else (answer_text, instruction_text))"


section \<open>The fallback responder\<close>

definition fallback_response :: "string \<Rightarrow> string" where
  \<comment> \<open>\<open>_fallback_response\<close>\<close>
  "fallback_response user_input =
     (let lower_input = lower user_input in
      if list_ex (\<lambda>word. contains word lower_input) [''hello'', ''hi'', ''hey''] then ''Hello!''
      else if list_ex (\<lambda>phrase. contains phrase lower_input)
                [''let'' @ [CHR 0x27] @ ''s'', ''please'', ''can you'', ''could you'']
        then ''I'' @ [CHR 0x27] @ ''ll work on that.''
      else if contains ''?'' user_input then ''Let me think about that.''
      else ''I'' @ [CHR 0x27] @ ''m listening.'')"


section \<open>The service and its environment\<close>

text \<open>
  A conversation record is the dictionary \<open>{"role": ..., "content": ...}\<close>. An event is one
  call of \<open>send_message\<close>: the message type and the keyword arguments, which \<open>json.dumps\<close>
  prints as one line on standard output.
\<close>

record message =
  role :: string
  content :: string

type_synonym event = "string \<times> (string \<times> string) list"

type_synonym chunk = "16 word list"

text \<open>
  What \<open>requests.post\<close> does for one call: it raises \<open>Timeout\<close>, \<open>ConnectionError\<close> or
  another exception (with its text), or it returns a response with a status code. The body of
  a response is \<open>Inr\<close> the value of \<open>result.get("message", {}).get("content", "")\<close>, or
  \<open>Inl\<close> the text of the exception that decoding the body raises.
\<close>

datatype http_result =
    Timeout
  | ConnectionError
  | OtherException string
  | Response int "string + string"

text \<open>
  The record holds the attributes of \<open>VoiceService\<close> that the modelled methods use, and the
  process's environment: the lines printed so far, the clock, and the three external engines.
  Each \<open>time.time()\<close> takes the next reading of \<open>clock\<close>. An engine is a function of the
  number of calls made so far and of the arguments of the call; the calls are logged.
\<close>

record voice_service =
  is_muted :: bool
  should_stop :: bool
  conversation_turns :: "message list"
  max_turns :: int
  last_activity_time :: real
  context_timeout :: real
  current_voice :: string
  system_prompt :: string
  ollama_url :: string
  stdout :: "event list"
  clock :: "nat \<Rightarrow> real"
  ticks :: nat
  ollama :: "nat \<Rightarrow> message list \<Rightarrow> http_result"
  posted :: "message list list"
  kokoro :: "nat \<Rightarrow> string \<Rightarrow> string \<Rightarrow> string option"
  tts_calls :: "(string \<times> string) list"
  whisper :: "nat \<Rightarrow> 16 word list \<Rightarrow> string + string list"
  whisper_calls :: "chunk list list"

definition time_time :: "voice_service \<Rightarrow> real \<times> voice_service" where
  \<comment> \<open>\<open>time.time()\<close>\<close>
  "time_time s = (clock s (ticks s), s\<lparr>ticks := Suc (ticks s)\<rparr>)"

definition send_message :: "string \<Rightarrow> (string \<times> string) list \<Rightarrow> voice_service \<Rightarrow> voice_service" where
  "send_message msg_type kwargs s = s\<lparr>stdout := stdout s @ [(msg_type, kwargs)]\<rparr>"

definition log_error :: "string \<Rightarrow> voice_service \<Rightarrow> voice_service" where
  "log_error msg s = send_message ''error'' [(''message'', msg)] s"

definition VoiceService_init ::
  "string \<Rightarrow> string \<Rightarrow> (nat \<Rightarrow> real) \<Rightarrow> (nat \<Rightarrow> message list \<Rightarrow> http_result) \<Rightarrow>
   (nat \<Rightarrow> string \<Rightarrow> string \<Rightarrow> string option) \<Rightarrow> (nat \<Rightarrow> 16 word list \<Rightarrow> string + string list) \<Rightarrow>
   voice_service" where
  \<comment> \<open>\<open>__init__\<close>, for a given prompt text, endpoint and environment; the constructor reads
      the clock once\<close>
  "VoiceService_init prompt url clk llm tts stt =
     \<lparr>is_muted = False, should_stop = False, conversation_turns = [], max_turns = 8,
      last_activity_time = clk 0, context_timeout = 120, current_voice = ''af_bella'',
      system_prompt = prompt, ollama_url = url, stdout = [], clock = clk, ticks = 1,
      ollama = llm, posted = [], kokoro = tts, tts_calls = [], whisper = stt,
      whisper_calls = []\<rparr>"


section \<open>The conversation context\<close>

definition add_conversation_turn :: "string \<Rightarrow> string \<Rightarrow> voice_service \<Rightarrow> voice_service" where
  \<comment> \<open>\<open>append\<close>, then \<open>pop(0)\<close> when the list is longer than \<open>max_turns\<close>\<close>
  "add_conversation_turn r c s =
     (let turns = conversation_turns s @ [\<lparr>role = r, content = c\<rparr>];
          turns = (if int (length turns) > max_turns s then tl turns else turns);
          (now, s) = time_time (s\<lparr>conversation_turns := turns\<rparr>)
      in s\<lparr>last_activity_time := now\<rparr>)"

datatype py_value = PyNone | PyBool bool

definition check_context_timeout :: "voice_service \<Rightarrow> py_value \<times> voice_service" where
  \<comment> \<open>the method has no \<open>return\<close> statement, so every call returns \<open>None\<close>; \<open>and\<close> does
      not read the clock when the list is empty\<close>
  "check_context_timeout s =
     (if conversation_turns s = [] then (PyNone, s)
      else let (now, s) = time_time s in
        if now - last_activity_time s > context_timeout s then
          let s = send_message ''debug''
                    [(''message'', ''Auto-resetting context after 2 minutes of inactivity'')] s;
              s = s\<lparr>conversation_turns := []\<rparr>;
              (now, s) = time_time s
          in (PyNone, s\<lparr>last_activity_time := now\<rparr>)
        else (PyNone, s))"


section \<open>Response generation\<close>

definition build_messages :: "string \<Rightarrow> voice_service \<Rightarrow> message list" where
  \<comment> \<open>the three statements that build \<open>messages\<close>; \<open>conversation_turns[-8:]\<close> is the
      whole list when it has fewer than eight records\<close>
  "build_messages user_input s =
     [\<lparr>role = ''system'', content = system_prompt s\<rparr>]
     @ drop (length (conversation_turns s) - 8) (conversation_turns s)
     @ [\<lparr>role = ''user'', content = user_input\<rparr>]"

definition generate_fast_response :: "string \<Rightarrow> voice_service \<Rightarrow> string \<times> voice_service" where
  \<comment> \<open>every \<open>except\<close> clause of the source is a branch: the method returns in each of them\<close>
  "generate_fast_response user_input s =
     (let s = send_message ''debug''
                [(''message'', ''Generating LLM response for: '' @ take 50 user_input)] s;
          messages = build_messages user_input s;
          s = send_message ''debug''
                [(''message'', ''Calling Ollama at '' @ ollama_url s @ ''...'')] s;
          reply = ollama s (length (posted s)) messages;
          s = s\<lparr>posted := posted s @ [messages]\<rparr>
      in case reply of
           Timeout \<Rightarrow>
             (fallback_response user_input,
              log_error ''LLM timeout - Ollama may be slow or not running'' s)
         | ConnectionError \<Rightarrow>
             (fallback_response user_input,
              log_error ''Cannot connect to Ollama - is it running?'' s)
         | OtherException e \<Rightarrow>
             (fallback_response user_input, log_error (''LLM response failed: '' @ e) s)
         | Response status_code body \<Rightarrow>
             (let s = send_message ''debug''
                        [(''message'', ''Ollama responded: '' @ str_int status_code)] s
              in if status_code = 200 then
                   (case body of
                      Inl e \<Rightarrow>
                        (fallback_response user_input,
                         log_error (''LLM response failed: '' @ e) s)
                    | Inr raw \<Rightarrow>
                        (let content = strip raw;
                             s = send_message ''debug''
                                   [(''message'',
                                     ''LLM content: '' @ [CHR 0x27] @ take 100 content @ [CHR 0x27])] s
                         in if content = [] then (fallback_response user_input, s)
                            else
                              (let (answer_text, instruction_text) = parse_dual_output content;
                                   s = (if instruction_text \<noteq> []
                                        then send_message ''instruction_detected''
                                               [(''instruction'', instruction_text)] s
                                        else s)
                               in (if answer_text \<noteq> [] then answer_text
                                   else fallback_response user_input, s))))
                 else
                   (fallback_response user_input,
                    send_message ''debug''
                      [(''message'', ''Non-200 response, using fallback'')] s)))"


section \<open>Speech output\<close>

definition speak_text :: "string \<Rightarrow> voice_service \<Rightarrow> voice_service" where
  \<comment> \<open>the engine answers \<open>None\<close> when synthesis and playback complete, \<open>Some e\<close> when the
      \<open>try\<close> block raises an exception with text \<open>e\<close>\<close>
  "speak_text txt s =
     (let r = kokoro s (length (tts_calls s)) txt (current_voice s);
          s = s\<lparr>tts_calls := tts_calls s @ [(txt, current_voice s)]\<rparr>
      in case r of None \<Rightarrow> s | Some e \<Rightarrow> log_error (''TTS failed: '' @ e) s)"

subsection \<open>Formatting text for speech\<close>

text \<open>
  \<open>re.sub\<close> replaces the non-overlapping matches from left to right; after a match it goes
  on behind the matched text. \<open>\b\<close> holds between two positions of which exactly one is a
  word character, the two ends of the text counting as non-word.
\<close>

definition word_boundary :: "char option \<Rightarrow> char option \<Rightarrow> bool" where
  "word_boundary prev nxt \<longleftrightarrow>
     (case prev of None \<Rightarrow> False | Some c \<Rightarrow> is_word c)
       \<noteq> (case nxt of None \<Rightarrow> False | Some c \<Rightarrow> is_word c)"

function sub_literal :: "string \<Rightarrow> string \<Rightarrow> char option \<Rightarrow> string \<Rightarrow> string" where
  \<comment> \<open>\<open>re.sub(r'\b' + p, r, text, flags=re.IGNORECASE)\<close> for a non-empty literal \<open>p\<close>;
      \<open>prev\<close> is the character in front of the remaining text\<close>
  "sub_literal p r prev [] = []"
| "sub_literal p r prev (c # cs) =
     (if word_boundary prev (Some c) \<and> startswith_ci p (c # cs)
      then r @ sub_literal p r (Some (last (c # take (length p - 1) cs))) (drop (length p - 1) cs)
      else c # sub_literal p r (Some c) cs)"
  by pat_completeness auto
termination
  by (relation "measure (\<lambda>(p, r, prev, s). length s)") auto

definition replacements :: "(string \<times> string) list" where
  \<comment> \<open>the dictionary \<open>replacements\<close> in insertion order, each pattern without its \<open>\b\<close>\<close>
  "replacements =
     [(''e.g.'', ''for example''), (''i.e.'', ''that is''), (''etc.'', ''et cetera''),
      (''vs.'', ''versus''), (''Mr.'', ''Mister''), (''Mrs.'', ''Missus''), (''Ms.'', ''Miss''),
      (''Dr.'', ''Doctor''), (''Prof.'', ''Professor''), (''Sr.'', ''Senior''),
      (''Jr.'', ''Junior''), (''No.'', ''Number''), (''St.'', ''Street''), (''Ave.'', ''Avenue''),
      (''Dept.'', ''Department''), (''Co.'', ''Company''), (''Inc.'', ''Incorporated''),
      (''Ltd.'', ''Limited'')]"

fun sub_dot_word :: "string \<Rightarrow> string" where
  \<comment> \<open>\<open>re.sub(r'(\w)\.(\w)', r'\1 \2', text)\<close>\<close>
  "sub_dot_word (a # b # c # cs) =
     (if is_word a \<and> b = CHR ''.'' \<and> is_word c then a # CHR '' '' # c # sub_dot_word cs
      else a # sub_dot_word (b # c # cs))"
| "sub_dot_word s = s"

function sub_dot_space :: "string \<Rightarrow> string" where
  \<comment> \<open>\<open>re.sub(r'(\w)\.\s+([a-z])', r'\1 \2', text)\<close>: the greedy \<open>\s+\<close> takes the whole
      run of white space, and giving part of it back leaves a white space where \<open>[a-z]\<close>
      is required\<close>
  "sub_dot_space [] = []"
| "sub_dot_space (a # cs) =
     (if is_word a \<and> startswith ''.'' cs \<and> dropWhile is_space (tl cs) \<noteq> tl cs
         \<and> dropWhile is_space (tl cs) \<noteq> [] \<and> is_lower (hd (dropWhile is_space (tl cs)))
      then a # CHR '' '' # hd (dropWhile is_space (tl cs))
             # sub_dot_space (tl (dropWhile is_space (tl cs)))
      else a # sub_dot_space cs)"
  by pat_completeness auto
termination
proof (relation "measure length")
  show "wf (measure length)" by simp
next
  fix a :: char and cs :: string
  have "length (dropWhile is_space (tl cs)) \<le> length (tl cs)"
    by (rule length_dropWhile_le)
  then show "(tl (dropWhile is_space (tl cs)), a # cs) \<in> measure length"
    by simp
next
  fix a :: char and cs :: string
  show "(cs, a # cs) \<in> measure length" by simp
qed

fun collapse_spaces :: "bool \<Rightarrow> string \<Rightarrow> string" where
  \<comment> \<open>\<open>re.sub(r'\s+', ' ', text)\<close>; the flag tells that the run of white space in front of
      the remaining text has been replaced already\<close>
  "collapse_spaces in_run [] = []"
| "collapse_spaces in_run (c # cs) =
     (if is_space c then (if in_run then collapse_spaces True cs
                          else CHR '' '' # collapse_spaces True cs)
      else c # collapse_spaces False cs)"

definition format_for_tts :: "string \<Rightarrow> string" where
  \<comment> \<open>\<open>_format_for_tts\<close>\<close>
  "format_for_tts txt =
     (let txt = foldl (\<lambda>t (pattern, replacement). sub_literal pattern replacement None t)
                  txt replacements;
          txt = sub_dot_word txt;
          txt = sub_dot_space txt;
          txt = collapse_spaces False txt
      in strip txt)"


section \<open>Commands from the parent process\<close>

text \<open>
  The decoded command is the dictionary restricted to the keys that \<open>handle_command\<close> reads,
  with values of the types of the documented command shapes; \<open>None\<close> is an absent key.
\<close>

record command =
  cmd_name :: "string option"
  cmd_voice :: "string option"
  cmd_text :: "string option"
  cmd_changes :: "string list option"
  cmd_notes :: "string list option"
  cmd_risks :: "string list option"
  cmd_next_questions :: "string list option"

definition get :: "'a option \<Rightarrow> 'a \<Rightarrow> 'a" where
  \<comment> \<open>\<open>command.get(key, default)\<close>\<close>
  "get field dflt = (case field of Some v \<Rightarrow> v | None \<Rightarrow> dflt)"

fun read_items :: "nat \<Rightarrow> nat \<Rightarrow> string list \<Rightarrow> string \<Rightarrow> string" where
  \<comment> \<open>the loop \<open>for i, item in enumerate(items)\<close> from index \<open>i\<close> on, for a list of
      \<open>n\<close> items\<close>
  "read_items i n [] announcement = announcement"
| "read_items i n (item # items) announcement =
     read_items (Suc i) n items
       (if i = 0 then announcement @ item
        else if i = n - 1 then announcement @ '', and '' @ item
        else announcement @ '', '' @ item)"

definition read_first3 :: "string list \<Rightarrow> string \<Rightarrow> string" where
  \<comment> \<open>the loop \<open>for i in range(3)\<close>, entered with more than three items\<close>
  "read_first3 items announcement =
     foldl (\<lambda>a i. if i = 0 then a @ items ! i
                   else if i = 2 then a @ '', and '' @ items ! i
                   else a @ '', '' @ items ! i) announcement [0 ..< 3]"

fun read_questions :: "nat \<Rightarrow> string list \<Rightarrow> string \<Rightarrow> string" where
  "read_questions i [] announcement = announcement"
| "read_questions i (question # questions) announcement =
     read_questions (Suc i) questions
       (if i = 0 then announcement @ question else announcement @ '' Also, '' @ question)"

definition announcement_text ::
  "string \<Rightarrow> string list \<Rightarrow> string list \<Rightarrow> string list \<Rightarrow> string list \<Rightarrow> string" where
  \<comment> \<open>the text that the \<open>announce\<close> branch builds before it is formatted for speech\<close>
  "announcement_text txt changes notes risks next_questions =
     (let announcement = txt;
          announcement =
            (if changes \<noteq> [] then
               (if length changes \<le> 3
                then read_items 0 (length changes) changes (announcement @ ''. '')
                else (let announcement = read_first3 changes (announcement @ ''. '');
                          remaining = length changes - 3
                      in announcement @ '', and '' @ str_nat remaining @ '' more change''
                           @ (if remaining > 1 then ''s'' else [])))
             else announcement);
          announcement =
            (if notes \<noteq> [] then
               (if length notes \<le> 4
                then read_items 0 (length notes) notes (announcement @ ''. '')
                else (let announcement = read_first3 notes (announcement @ ''. '');
                          remaining = length notes - 3
                      in announcement @ ''. There are '' @ str_nat remaining
                           @ '' more important things that need further investigation''))
             else announcement);
          announcement =
            (if risks \<noteq> [] then
               (if length risks \<le> 2
                then read_items 0 (length risks) risks (announcement @ ''. However, '')
                else announcement @ ''. Note: '' @ str_nat (length risks)
                       @ '' potential risks to be aware of'')
             else announcement);
          announcement =
            (if next_questions \<noteq> []
             then read_questions 0 next_questions (announcement @ ''. '')
             else announcement)
      in announcement)"

definition handle_command :: "command \<Rightarrow> voice_service \<Rightarrow> voice_service" where
  "handle_command command s =
     (let cmd = cmd_name command in
      if cmd = Some ''mute'' then send_message ''muted'' [] (s\<lparr>is_muted := True\<rparr>)
      else if cmd = Some ''unmute'' then send_message ''unmuted'' [] (s\<lparr>is_muted := False\<rparr>)
      else if cmd = Some ''reset_context'' then
        (let s = s\<lparr>conversation_turns := []\<rparr>;
             (now, s) = time_time s;
             s = s\<lparr>last_activity_time := now\<rparr>
         in send_message ''debug'' [(''message'', ''Conversation context manually reset'')] s)
      else if cmd = Some ''change_voice'' then
        (let new_voice = get (cmd_voice command) ''af_bella'';
             s = s\<lparr>current_voice := new_voice\<rparr>
         in send_message ''debug'' [(''message'', ''Voice changed to: '' @ new_voice)] s)
      else if cmd = Some ''shutdown'' then s\<lparr>should_stop := True\<rparr>
      else if cmd = Some ''announce'' then
        (let txt = get (cmd_text command) ''Task completed'';
             changes = get (cmd_changes command) [];
             notes = get (cmd_notes command) [];
             risks = get (cmd_risks command) [];
             next_questions = get (cmd_next_questions command) [];
             (now, s) = time_time s;
             s = s\<lparr>last_activity_time := now\<rparr>;
             announcement = announcement_text txt changes notes risks next_questions;
             announcement = format_for_tts announcement;
             s = add_conversation_turn ''assistant'' announcement s;
             s = send_message ''debug'' [(''message'', ''Announcing: '' @ announcement)] s;
             s = speak_text announcement s
         in send_message ''jarvis_speaking'' [(''text'', announcement)] s)
      else log_error (''Unknown command: '' @ get cmd ''None'') s)"

text \<open>
  \<open>json.loads\<close> is a parameter of the listener: it raises \<open>JSONDecodeError\<close>, or returns a
  value that is no dictionary (\<open>handle_command\<close> then raises an exception, whose text is
  kept), or returns a dictionary. One input of the listener is what \<open>sys.stdin.readline()\<close>
  does in one iteration: \<open>Inl\<close> the text of an exception, or \<open>Inr\<close> the line read, which is
  empty at the end of the input.
\<close>

datatype decoded = JSONDecodeError | NotADict string | Dict command

definition listen_step :: "(string \<Rightarrow> decoded) \<Rightarrow> string + string \<Rightarrow> voice_service \<Rightarrow> voice_service" where
  \<comment> \<open>the body of the loop of \<open>listen_for_commands\<close>\<close>
  "listen_step json_loads input s =
     (case input of
        Inl e \<Rightarrow> log_error (''Error reading command: '' @ e) s
      | Inr line \<Rightarrow>
          if line \<noteq> [] then
            (case json_loads (strip line) of
               JSONDecodeError \<Rightarrow> log_error ''Invalid JSON command received'' s
             | NotADict e \<Rightarrow> log_error (''Error reading command: '' @ e) s
             | Dict command \<Rightarrow> handle_command command s)
          else s)"

fun listen_for_commands ::
  "(string \<Rightarrow> decoded) \<Rightarrow> (string + string) list \<Rightarrow> voice_service \<Rightarrow> voice_service" where
  \<comment> \<open>the loop \<open>while not self.should_stop\<close>, run over the inputs of its first iterations\<close>
  "listen_for_commands json_loads [] s = s"
| "listen_for_commands json_loads (input # inputs) s =
     (if should_stop s then s
      else listen_for_commands json_loads inputs (listen_step json_loads input s))"


section \<open>The audio loop\<close>

definition np_abs :: "16 word \<Rightarrow> 16 word" where
  \<comment> \<open>\<open>np.abs\<close> on \<open>int16\<close>: the negation wraps, so the most negative sample stays as it is\<close>
  "np_abs w = (if sint w < 0 then - w else w)"

definition calculate_energy :: "chunk \<Rightarrow> real" where
  \<comment> \<open>\<open>np.abs(audio_chunk).mean()\<close>; the sum of a chunk of 1024 samples and its division
      by 1024 are exact in double precision\<close>
  "calculate_energy audio_chunk =
     real_of_int (sum_list (map (\<lambda>w. sint (np_abs w)) audio_chunk)) / real (length audio_chunk)"

definition SILENCE_THRESHOLD :: real where "SILENCE_THRESHOLD = 400"
definition SILENCE_DURATION :: real where "SILENCE_DURATION = 1.0"
definition MIN_SPEECH_DURATION :: real where "MIN_SPEECH_DURATION = 0.5"
definition CHUNK_SIZE :: int where "CHUNK_SIZE = 1024"
definition sample_rate :: int where
  \<comment> \<open>the attribute \<open>self.sample_rate\<close>, set by the constructor and never assigned again\<close>
  "sample_rate = 16000"

definition py_int :: "real \<Rightarrow> int" where
  \<comment> \<open>\<open>int(x)\<close> truncates towards zero\<close>
  "py_int x = (if x < 0 then \<lceil>x\<rceil> else \<lfloor>x\<rfloor>)"

text \<open>The local variables of \<open>process_audio_loop\<close>.\<close>

record vad =
  recording :: bool
  frames :: "chunk list"
  silence_start :: "real option"
  speech_detected :: bool

definition vad_init :: vad where
  "vad_init = \<lparr>recording = False, frames = [], silence_start = None, speech_detected = False\<rparr>"

definition vad_reset :: "vad \<Rightarrow> vad" where
  \<comment> \<open>the four assignments that end a turn\<close>
  "vad_reset v = v\<lparr>recording := False, frames := [], silence_start := None,
                   speech_detected := False\<rparr>"

datatype ctl = Continue | Break

definition respond :: "string \<Rightarrow> vad \<Rightarrow> voice_service \<Rightarrow> ctl \<times> vad \<times> voice_service" where
  \<comment> \<open>the block under \<open>if transcription:\<close>; \<open>break\<close> leaves the loop before the local
      variables are reset\<close>
  "respond transcription v s =
     (let s = send_message ''transcription'' [(''text'', transcription)] s in
      if contains ''goodbye'' (lower transcription) \<or> contains ''exit'' (lower transcription)
      then
        (let response = ''Goodbye!'';
             s = send_message ''jarvis_speaking'' [(''text'', response)] s;
             s = speak_text response s
         in (Break, v, s\<lparr>should_stop := True\<rparr>))
      else
        (let s = add_conversation_turn ''user'' transcription s;
             (response, s) = generate_fast_response transcription s;
             s = (if response \<noteq> [] then
                    (let s = send_message ''jarvis_speaking'' [(''text'', response)] s;
                         s = add_conversation_turn ''assistant'' response s;
                         s = send_message ''conversation_turn''
                               [(''user_text'', transcription), (''jarvis_response'', response)] s;
                         s = speak_text response s
                     in send_message ''listening'' [] s)
                  else s)
         in (Continue, vad_reset v, s)))"

definition transcribe_turn :: "vad \<Rightarrow> voice_service \<Rightarrow> ctl \<times> vad \<times> voice_service" where
  \<comment> \<open>the block under the length test: the accumulated frames go to the transcriber, which
      returns the texts of the segments or raises; the exception is caught by the loop, after
      the frame of this iteration has been appended and before the variables are reset\<close>
  "transcribe_turn v s =
     (let r = whisper s (length (whisper_calls s)) (concat (frames v));
          s = s\<lparr>whisper_calls := whisper_calls s @ [frames v]\<rparr>
      in case r of
           Inl e \<Rightarrow> (Continue, v, log_error (''Error in audio loop: '' @ e) s)
         | Inr segments \<Rightarrow>
             (let transcription = strip (join '' '' segments) in
              if transcription \<noteq> [] then respond transcription v s
              else (Continue, vad_reset v, s)))"

definition loop_body :: "string + chunk \<Rightarrow> vad \<Rightarrow> voice_service \<Rightarrow> ctl \<times> vad \<times> voice_service" where
  \<comment> \<open>one iteration of \<open>while not self.should_stop\<close>; the input is what
      \<open>audio_stream.read\<close> does in this iteration (\<open>Inl\<close> the text of an exception), and it is
      not looked at while the service is muted\<close>
  "loop_body input v s =
     (let s = snd (check_context_timeout s) in
      if is_muted s then (Continue, v, s)
      else case input of
        Inl e \<Rightarrow> (Continue, v, log_error (''Error in audio loop: '' @ e) s)
      | Inr audio_chunk \<Rightarrow>
          (let energy = calculate_energy audio_chunk in
           if energy > SILENCE_THRESHOLD then
             (let (v, s) = (if \<not> recording v
                            then (v\<lparr>recording := True, speech_detected := True\<rparr>,
                                  send_message ''user_speaking'' [] s)
                            else (v, s))
              in (Continue, v\<lparr>frames := frames v @ [audio_chunk], silence_start := None\<rparr>, s))
           else if recording v then
             (let (start, s) = (case silence_start v of None \<Rightarrow> time_time s
                                | Some t \<Rightarrow> (t, s));
                  v = v\<lparr>silence_start := Some start, frames := frames v @ [audio_chunk]\<rparr>;
                  (now, s) = time_time s
              in if now - start \<ge> SILENCE_DURATION then
                   (if speech_detected v \<and>
                       int (length (frames v))
                         > py_int (MIN_SPEECH_DURATION * real_of_int sample_rate
                                     / real_of_int CHUNK_SIZE)
                    then transcribe_turn v s
                    else (Continue, vad_reset v, s))
                 else (Continue, v, s))
           else (Continue, v, s)))"

fun audio_loop :: "(string + chunk) list \<Rightarrow> vad \<Rightarrow> voice_service \<Rightarrow> vad \<times> voice_service" where
  \<comment> \<open>the loop run over the inputs of its first iterations; it returns the state reached
      when it has left the loop or used up the inputs\<close>
  "audio_loop [] v s = (v, s)"
| "audio_loop (input # inputs) v s =
     (if should_stop s then (v, s)
      else case loop_body input v s of
             (Break, v, s) \<Rightarrow> (v, s)
           | (Continue, v, s) \<Rightarrow> audio_loop inputs v s)"

definition process_audio_loop :: "(string + chunk) list \<Rightarrow> voice_service \<Rightarrow> vad \<times> voice_service" where
  "process_audio_loop inputs s =
     audio_loop inputs vad_init (send_message ''listening'' [] (send_message ''ready'' [] s))"


section \<open>Notions used to state the properties\<close>

definition add_turns :: "(string \<times> string) list \<Rightarrow> voice_service \<Rightarrow> voice_service" where
  \<comment> \<open>a sequence of calls \<open>add_conversation_turn(role, content)\<close>\<close>
  "add_turns calls s = foldl (\<lambda>s (r, c). add_conversation_turn r c s) s calls"

definition record_of :: "string \<times> string \<Rightarrow> message" where
  "record_of call = \<lparr>role = fst call, content = snd call\<rparr>"

fun degraded :: "http_result \<Rightarrow> bool" where
  "degraded Timeout = True"
| "degraded ConnectionError = True"
| "degraded (OtherException e) = True"
| "degraded (Response status_code body) =
     (status_code \<noteq> 200 \<or> (case body of Inl e \<Rightarrow> True | Inr raw \<Rightarrow> strip raw = []))"

definition test_service :: voice_service where
  "test_service =
     VoiceService_init ''You are Jarvis.'' ''http://localhost:11434'' (\<lambda>k. real k / 8)
       (\<lambda>n messages. Response 200 (Inr '' [ANSWER] Done. ''))
       (\<lambda>n txt voice. None) (\<lambda>n samples. Inr [])"


definition ten_calls :: "(string \<times> string) list" where
  "ten_calls = [(''user'', ''one''), (''assistant'', ''two''), (''user'', ''three''),
     (''assistant'', ''four''), (''user'', ''five''), (''assistant'', ''six''),
     (''user'', ''seven''), (''assistant'', ''eight''), (''user'', ''nine''),
     (''assistant'', ''ten'')]"


definition one_turn_service :: voice_service where
  \<comment> \<open>a service with \<open>max_turns = 8\<close> and \<open>context_timeout = 120\<close> that holds one record,
      added at time 0, and whose clock reads 100 and then 100.5\<close>
  "one_turn_service =
     test_service\<lparr>conversation_turns := [\<lparr>role = ''user'', content = ''hello''\<rparr>],
                   last_activity_time := 0, clock := (\<lambda>k. 100 + real k / 2), ticks := 0\<rparr>"

definition stale_service :: voice_service where
  \<comment> \<open>the same service with a clock that reads 121 and then 121.5\<close>
  "stale_service = one_turn_service\<lparr>clock := (\<lambda>k. 121 + real k / 2)\<rparr>"

definition reset_event :: event where
  "reset_event =
     (''debug'', [(''message'', ''Auto-resetting context after 2 minutes of inactivity'')])"


definition failing_service :: voice_service where
  \<comment> \<open>a service whose language-model endpoint answers with status 503\<close>
  "failing_service = test_service\<lparr>ollama := (\<lambda>n messages. Response 503 (Inr ''busy''))\<rparr>"


definition invalid_json_event :: event where
  "invalid_json_event = (''error'', [(''message'', ''Invalid JSON command received'')])"

definition empty_object :: command where
  \<comment> \<open>the dictionary \<open>{}\<close>\<close>
  "empty_object = \<lparr>cmd_name = None, cmd_voice = None, cmd_text = None, cmd_changes = None,
                    cmd_notes = None, cmd_risks = None, cmd_next_questions = None\<rparr>"

definition only_empty_object :: "string \<Rightarrow> decoded" where
  \<comment> \<open>a decoder restricted to two inputs: it decodes \<open>{}\<close> and rejects \<open>mute\<close>\<close>
  "only_empty_object txt = (if txt = ''{}'' then Dict empty_object else JSONDecodeError)"


definition read_in_full :: "string list \<Rightarrow> string" where
  \<comment> \<open>a list read in full: the items separated by commas, with \<open>and\<close> before the last of
      two or more\<close>
  "read_in_full items =
     (case items of [] \<Rightarrow> [] | [x] \<Rightarrow> x
      | _ \<Rightarrow> join '', '' (butlast items) @ '', and '' @ last items)"

definition first_three :: "string list \<Rightarrow> string" where
  \<comment> \<open>the first three items of a longer list, read as a list of three\<close>
  "first_three items = items ! 0 @ '', '' @ items ! 1 @ '', and '' @ items ! 2"

definition changes_part :: "string list \<Rightarrow> string" where
  "changes_part changes =
     (if changes = [] then []
      else if length changes \<le> 3 then ''. '' @ read_in_full changes
      else ''. '' @ first_three changes @ '', and '' @ str_nat (length changes - 3)
             @ (if length changes - 3 > 1 then '' more changes'' else '' more change''))"

definition notes_part :: "string list \<Rightarrow> string" where
  "notes_part notes =
     (if notes = [] then []
      else if length notes \<le> 4 then ''. '' @ read_in_full notes
      else ''. '' @ first_three notes @ ''. There are '' @ str_nat (length notes - 3)
             @ '' more important things that need further investigation'')"

definition risks_part :: "string list \<Rightarrow> string" where
  "risks_part risks =
     (if risks = [] then []
      else if length risks \<le> 2 then ''. However, '' @ read_in_full risks
      else ''. Note: '' @ str_nat (length risks) @ '' potential risks to be aware of'')"

definition questions_part :: "string list \<Rightarrow> string" where
  "questions_part questions =
     (if questions = [] then [] else ''. '' @ join '' Also, '' questions)"

definition announce_changes :: "string list \<Rightarrow> command" where
  \<comment> \<open>the command \<open>{"command": "announce", "changes": [...]}\<close>\<close>
  "announce_changes changes = empty_object\<lparr>cmd_name := Some ''announce'', cmd_changes := Some changes\<rparr>"

definition announce_risks :: "string list \<Rightarrow> command" where
  \<comment> \<open>the command \<open>{"command": "announce", "risks": [...]}\<close>\<close>
  "announce_risks risks = empty_object\<lparr>cmd_name := Some ''announce'', cmd_risks := Some risks\<rparr>"


definition is_speech :: "chunk \<Rightarrow> bool" where
  \<comment> \<open>the frame is classified as speech: \<open>energy > SILENCE_THRESHOLD\<close>\<close>
  "is_speech audio_chunk \<longleftrightarrow> calculate_energy audio_chunk > SILENCE_THRESHOLD"

definition silence_began :: "vad \<Rightarrow> voice_service \<Rightarrow> real" where
  \<comment> \<open>the value of \<open>silence_start\<close> that a silent frame works with: the one set before, or
      the next clock reading\<close>
  "silence_began v s = (case silence_start v of None \<Rightarrow> clock s (ticks s) | Some t \<Rightarrow> t)"

definition silence_checked :: "vad \<Rightarrow> voice_service \<Rightarrow> nat" where
  \<comment> \<open>the index of the clock reading that a silent frame compares with \<open>silence_start\<close>\<close>
  "silence_checked v s = (case silence_start v of None \<Rightarrow> Suc (ticks s) | Some t \<Rightarrow> ticks s)"

definition tts_error_events :: "string \<Rightarrow> voice_service \<Rightarrow> event list" where
  \<comment> \<open>the error event that \<open>speak_text\<close> prints when the speech engine fails on its next call\<close>
  "tts_error_events txt s =
     (case kokoro s (length (tts_calls s)) txt (current_voice s) of
        None \<Rightarrow> []
      | Some e \<Rightarrow> [(''error'', [(''message'', ''TTS failed: '' @ e)])])"


definition listening :: "voice_service \<Rightarrow> bool" where
  \<comment> \<open>the loop runs, reads the microphone, and has no context that could time out\<close>
  "listening s \<longleftrightarrow> conversation_turns s = [] \<and> \<not> is_muted s \<and> \<not> should_stop s"


definition loud :: chunk where
  \<comment> \<open>a frame of 1024 samples of amplitude 1000\<close>
  "loud = replicate 1024 1000"

definition hush :: chunk where
  \<comment> \<open>a frame of 1024 samples of amplitude 0\<close>
  "hush = replicate 1024 0"

definition resumed_turn :: "chunk list" where
  \<comment> \<open>20 frames of speech, 5 of silence, 20 of speech, and 8 of silence: with one clock
      reading every eighth of a second, the eighth reading after the first finds the second
      silence one second long\<close>
  "resumed_turn = replicate 20 loud @ replicate 5 hush @ replicate 20 loud @ replicate 8 hush"


definition running :: "voice_service \<Rightarrow> bool" where
  \<comment> \<open>the loop runs and reads the microphone\<close>
  "running s \<longleftrightarrow> \<not> is_muted s \<and> \<not> should_stop s"

definition silence_elapsed :: "vad \<Rightarrow> voice_service \<Rightarrow> real" where
  \<comment> \<open>the time since the silence began that an iteration on a silent frame measures when it
      starts in this state: \<open>time.time() - silence_start\<close>, after the context check\<close>
  "silence_elapsed v s =
     (let s1 = snd (check_context_timeout s)
      in clock s1 (silence_checked v s1) - silence_began v s1)"





definition paced_service :: voice_service where
  \<comment> \<open>a service whose clock advances by 64 milliseconds, the duration of one frame of 1024
      samples at 16000 samples a second, from one reading to the next\<close>
  "paced_service = test_service\<lparr>clock := (\<lambda>k. real k * 64 / 1000)\<rparr>"

definition cough :: "nat \<Rightarrow> chunk list" where
  \<comment> \<open>one frame of speech followed by frames of silence\<close>
  "cough n = loud # replicate n hush"


definition farewell_service :: voice_service where
  \<comment> \<open>a service at the pace of the device whose transcriber hears two segments\<close>
  "farewell_service =
     paced_service\<lparr>whisper := (\<lambda>n samples. Inr ['' Okay, Goodbye'', '' Jarvis. ''])\<rparr>"





section \<open>Properties of the text primitives\<close>

lemma is_space_code:
  "is_space c \<longleftrightarrow>
     (let n = (of_char c :: nat)
      in (9 \<le> n \<and> n \<le> 13) \<or> (28 \<le> n \<and> n \<le> 32) \<or> n = 133 \<or> n = 160)"
proof (cases c)
  case (Char b0 b1 b2 b3 b4 b5 b6 b7)
  show ?thesis unfolding Char
    by (cases b0; cases b1; cases b2; cases b3; cases b4; cases b5; cases b6; cases b7; simp)
qed

lemma is_upper_code:
  "is_upper c \<longleftrightarrow>
     (let n = (of_char c :: nat)
      in (65 \<le> n \<and> n \<le> 90) \<or> (192 \<le> n \<and> n \<le> 222 \<and> n \<noteq> 215))"
proof (cases c)
  case (Char b0 b1 b2 b3 b4 b5 b6 b7)
  show ?thesis unfolding Char
    by (cases b0; cases b1; cases b2; cases b3; cases b4; cases b5; cases b6; cases b7; simp)
qed

lemma is_lower_code: "is_lower c \<longleftrightarrow> 97 \<le> (of_char c :: nat) \<and> (of_char c :: nat) \<le> 122"
proof (cases c)
  case (Char b0 b1 b2 b3 b4 b5 b6 b7)
  show ?thesis unfolding Char
    by (cases b0; cases b1; cases b2; cases b3; cases b4; cases b5; cases b6; cases b7; simp)
qed

lemma is_digit_code: "is_digit c \<longleftrightarrow> 48 \<le> (of_char c :: nat) \<and> (of_char c :: nat) \<le> 57"
proof (cases c)
  case (Char b0 b1 b2 b3 b4 b5 b6 b7)
  show ?thesis unfolding Char
    by (cases b0; cases b1; cases b2; cases b3; cases b4; cases b5; cases b6; cases b7; simp)
qed

lemma is_word_code:
  "is_word c \<longleftrightarrow>
     (let n = (of_char c :: nat)
      in (48 \<le> n \<and> n \<le> 57) \<or> (65 \<le> n \<and> n \<le> 90) \<or> n = 95 \<or> (97 \<le> n \<and> n \<le> 122)
         \<or> n = 170 \<or> n = 178 \<or> n = 179 \<or> n = 181 \<or> n = 185 \<or> n = 186
         \<or> n = 188 \<or> n = 189 \<or> n = 190
         \<or> (192 \<le> n \<and> n \<noteq> 215 \<and> n \<noteq> 247))"
proof (cases c)
  case (Char b0 b1 b2 b3 b4 b5 b6 b7)
  show ?thesis unfolding Char
    by (cases b0; cases b1; cases b2; cases b3; cases b4; cases b5; cases b6; cases b7; simp)
qed

lemma lower_char_code:
  "(of_char (lower_char c) :: nat) = (if is_upper c then of_char c + 32 else of_char c)"
proof (cases c)
  case (Char b0 b1 b2 b3 b4 b5 b6 b7)
  show ?thesis unfolding Char
    by (cases b0; cases b1; cases b2; cases b3; cases b4; cases b5; cases b6; cases b7; simp)
qed

lemma after_marker_None: "after_marker m s = None \<longleftrightarrow> \<not> contains_ci m s"
  by (induction s) auto

lemma no_marker: "\<not> contains_ci m s \<Longrightarrow> after_marker m s = None"
  by (simp add: after_marker_None)

lemma strip_dropWhile: "strip (dropWhile is_space s) = strip s"
  by (simp add: strip_def)

lemma strip_snoc_space:
  assumes c: "is_space c"
  shows "strip (u @ [c]) = strip u"
proof (cases "\<forall>x\<in>set u. is_space x")
  case True
  have a: "dropWhile is_space u = []"
    unfolding dropWhile_eq_Nil_conv using True by blast
  have b: "dropWhile is_space (u @ [c]) = []"
    unfolding dropWhile_eq_Nil_conv using True c by auto
  show ?thesis unfolding strip_def a b by simp
next
  case False
  then obtain x where "x \<in> set u" "\<not> is_space x" by blast
  then have "dropWhile is_space (u @ [c]) = dropWhile is_space u @ [c]"
    by (rule dropWhile_append1)
  with c show ?thesis by (simp add: strip_def)
qed

lemma lazy_to_end_cases: "lazy_to_end s = s \<or> s = lazy_to_end s @ [CHR 0x0A]"
  by (induction s) (auto simp: dollar_def)

lemma strip_lazy_to_end: "strip (lazy_to_end s) = strip s"
proof -
  have sp: "is_space (CHR 0x0A)" by simp
  from lazy_to_end_cases [of s] show ?thesis
  proof
    assume "lazy_to_end s = s"
    then show ?thesis by simp
  next
    assume "s = lazy_to_end s @ [CHR 0x0A]"
    then have "strip s = strip (lazy_to_end s @ [CHR 0x0A])" by simp
    also have "\<dots> = strip (lazy_to_end s)" using sp by (rule strip_snoc_space)
    finally show ?thesis by simp
  qed
qed

section \<open>The dual-channel parser: claim C1\<close>

lemma parse_no_markers:
  assumes "\<not> contains_ci ''[ANSWER]'' c" and "\<not> contains_ci ''[INSTRUCTION]'' c"
  shows "parse_dual_output c = (strip c, [])"
proof -
  have a: "answer_match c = None" using assms(1) by (simp add: answer_match_def no_marker)
  have i: "instruction_match c = None"
    using assms(2) by (simp add: instruction_match_def no_marker)
  show ?thesis by (simp add: parse_dual_output_def a i)
qed

lemma parse_instruction_only:
  assumes "\<not> contains_ci ''[ANSWER]'' c" and "after_marker ''[INSTRUCTION]'' c = Some rest"
  shows "parse_dual_output c = (if strip rest = [] then (strip c, []) else ([], strip rest))"
proof -
  have a: "answer_match c = None" using assms(1) by (simp add: answer_match_def no_marker)
  have i: "instruction_match c = Some (lazy_to_end (dropWhile is_space rest))"
    using assms(2) by (simp add: instruction_match_def)
  have s: "strip (lazy_to_end (dropWhile is_space rest)) = strip rest"
    by (simp only: strip_lazy_to_end strip_dropWhile)
  show ?thesis by (simp add: parse_dual_output_def a i s)
qed

lemma parse_example:
  "parse_dual_output ''[ANSWER] Hi there. [INSTRUCTION] Create a file''
     = (''Hi there.'', ''Create a file'')"
  by code_simp

text \<open>
  C1 (as amended). The parser turns \<open>[ANSWER] Hi there. [INSTRUCTION] Create a file\<close> into
  the answer \<open>Hi there.\<close> and the instruction \<open>Create a file\<close>. For every input that
  contains neither marker (letter case ignored) the answer is the stripped input and the
  instruction is absent (the empty string). For every input that contains no \<open>[ANSWER]\<close>
  marker and in which the text behind the first \<open>[INSTRUCTION]\<close> marker is not blank, the
  answer is the empty string and the instruction is that text, stripped, which is not empty.
\<close>

theorem parse_dual_output_channels:
  "parse_dual_output ''[ANSWER] Hi there. [INSTRUCTION] Create a file''
     = (''Hi there.'', ''Create a file'')
   \<and> (\<not> contains_ci ''[ANSWER]'' c \<and> \<not> contains_ci ''[INSTRUCTION]'' c
        \<longrightarrow> parse_dual_output c = (strip c, []))
   \<and> (\<not> contains_ci ''[ANSWER]'' d \<and> after_marker ''[INSTRUCTION]'' d = Some rest
        \<and> strip rest \<noteq> []
        \<longrightarrow> parse_dual_output d = ([], strip rest) \<and> snd (parse_dual_output d) \<noteq> [])"
  using parse_example parse_no_markers [of c] parse_instruction_only [of d rest] by simp

theorem parse_dual_output_channels_witness:
  "\<not> contains_ci ''[ANSWER]'' ''  Right away.  ''
   \<and> \<not> contains_ci ''[INSTRUCTION]'' ''  Right away.  ''
   \<and> parse_dual_output ''  Right away.  '' = (''Right away.'', [])
   \<and> \<not> contains_ci ''[ANSWER]'' ''ok [Instruction] Run the tests ''
   \<and> after_marker ''[INSTRUCTION]'' ''ok [Instruction] Run the tests '' = Some '' Run the tests ''
   \<and> strip '' Run the tests '' \<noteq> []
   \<and> parse_dual_output ''ok [Instruction] Run the tests '' = ([], ''Run the tests'')"
proof -
  have h1: "\<not> contains_ci ''[ANSWER]'' ''  Right away.  ''" by code_simp
  have h2: "\<not> contains_ci ''[INSTRUCTION]'' ''  Right away.  ''" by code_simp
  have h3: "\<not> contains_ci ''[ANSWER]'' ''ok [Instruction] Run the tests ''" by code_simp
  have h4: "after_marker ''[INSTRUCTION]'' ''ok [Instruction] Run the tests ''
              = Some '' Run the tests ''" by code_simp
  have s1: "strip ''  Right away.  '' = ''Right away.''" by code_simp
  have s2: "strip '' Run the tests '' = ''Run the tests''" by code_simp
  show ?thesis
    using parse_dual_output_channels
      [of "''  Right away.  ''" "''ok [Instruction] Run the tests ''" "'' Run the tests ''"]
      h1 h2 h3 h4 s1 s2
    by simp
qed

text \<open>
  The claim as stated fails where nothing but white space follows the \<open>[INSTRUCTION]\<close>
  marker: both parts are then empty, and the parser falls back to the whole text as the
  answer and signals no instruction.
\<close>

theorem parse_dual_output_bare_instruction_marker:
  "contains_ci ''[INSTRUCTION]'' ''[INSTRUCTION]''
   \<and> \<not> contains_ci ''[ANSWER]'' ''[INSTRUCTION]''
   \<and> parse_dual_output ''[INSTRUCTION]'' = (''[INSTRUCTION]'', [])
   \<and> \<not> (fst (parse_dual_output ''[INSTRUCTION]'') = []
          \<and> snd (parse_dual_output ''[INSTRUCTION]'') \<noteq> [])"
  by code_simp


section \<open>The conversation context: claim C2\<close>

lemma time_time_eq: "time_time s = (clock s (ticks s), s\<lparr>ticks := Suc (ticks s)\<rparr>)"
  by (simp add: time_time_def)

lemma add_turn_eq:
  "add_conversation_turn r c s =
     s\<lparr>conversation_turns :=
          (if int (length (conversation_turns s)) + 1 > max_turns s
           then tl (conversation_turns s @ [\<lparr>role = r, content = c\<rparr>])
           else conversation_turns s @ [\<lparr>role = r, content = c\<rparr>]),
        ticks := Suc (ticks s),
        last_activity_time := clock s (ticks s)\<rparr>"
  by (simp add: add_conversation_turn_def time_time_def Let_def)

lemma add_turns_snoc:
  "add_turns (calls @ [(r, c)]) s = add_conversation_turn r c (add_turns calls s)"
  by (simp add: add_turns_def)

lemma add_turns_max: "max_turns (add_turns calls s) = max_turns s"
proof (induction calls rule: rev_induct)
  case Nil
  show ?case by (simp add: add_turns_def)
next
  case (snoc call calls)
  obtain r c where call: "call = (r, c)" by (cases call)
  show ?case unfolding call add_turns_snoc using snoc by (simp add: add_turn_eq)
qed

lemma fifo_step:
  fixes ms :: "'a list"
  shows "(if int (length (drop (length ms - n) ms)) + 1 > int n
          then tl (drop (length ms - n) ms @ [m]) else drop (length ms - n) ms @ [m])
         = drop (Suc (length ms) - n) (ms @ [m])"
proof (cases "length ms < n")
  case True
  then show ?thesis by simp
next
  case False
  then have le: "n \<le> length ms" by simp
  show ?thesis
  proof (cases "n = 0")
    case True
    then show ?thesis by simp
  next
    case False
    with le have ne: "drop (length ms - n) ms \<noteq> []" by simp
    from le have "Suc (length ms) - n = Suc (length ms - n)" by simp
    with le ne show ?thesis by (simp add: drop_Suc tl_drop)
  qed
qed

lemma add_turns_fifo:
  assumes "conversation_turns s = []" and "0 \<le> max_turns s"
  shows "conversation_turns (add_turns calls s)
           = drop (length calls - nat (max_turns s)) (map record_of calls)"
proof (induction calls rule: rev_induct)
  case Nil
  show ?case using assms by (simp add: add_turns_def)
next
  case (snoc call calls)
  obtain r c where call: "call = (r, c)" by (cases call)
  have rc: "\<lparr>role = r, content = c\<rparr> = record_of call" by (simp add: record_of_def call)
  have "conversation_turns (add_turns (calls @ [call]) s)
      = (if int (length (drop (length (map record_of calls) - nat (max_turns s)) (map record_of calls))) + 1
              > int (nat (max_turns s))
         then tl (drop (length (map record_of calls) - nat (max_turns s)) (map record_of calls) @ [record_of call])
         else drop (length (map record_of calls) - nat (max_turns s)) (map record_of calls) @ [record_of call])"
    unfolding call add_turns_snoc add_turn_eq rc [unfolded call] add_turns_max
    using assms(2) by (simp add: snoc.IH)
  also have "\<dots> = drop (Suc (length (map record_of calls)) - nat (max_turns s)) (map record_of calls @ [record_of call])"
    by (rule fifo_step)
  finally show ?case by simp
qed

lemma add_turn_at_cap:
  assumes "int (length (conversation_turns s)) = max_turns s"
  shows "conversation_turns (add_conversation_turn r c s)
           = tl (conversation_turns s @ [\<lparr>role = r, content = c\<rparr>])"
  using assms by (simp add: add_turn_eq)

text \<open>
  C2. Starting from an empty context with a non-negative \<open>max_turns\<close>, after any sequence
  of calls of \<open>add_conversation_turn\<close> the list holds at most \<open>max_turns\<close> records: it
  holds the last \<open>max_turns\<close> records added, in the order of the calls. Once as many calls
  as \<open>max_turns\<close> have been made, a further call removes the record at the head of the
  list, the oldest one, and keeps the others in order behind it.
\<close>

theorem conversation_turns_bounded_fifo:
  assumes "conversation_turns s = []" and "0 \<le> max_turns s"
  shows "int (length (conversation_turns (add_turns calls s))) \<le> max_turns s
       \<and> conversation_turns (add_turns calls s)
           = drop (length calls - nat (max_turns s)) (map record_of calls)
       \<and> (length calls \<ge> nat (max_turns s) \<longrightarrow>
            conversation_turns (add_conversation_turn r c (add_turns calls s))
              = tl (conversation_turns (add_turns calls s) @ [\<lparr>role = r, content = c\<rparr>]))"
proof -
  have fifo: "conversation_turns (add_turns calls s)
           = drop (length calls - nat (max_turns s)) (map record_of calls)"
    using assms by (rule add_turns_fifo)
  have bound: "int (length (conversation_turns (add_turns calls s))) \<le> max_turns s"
    unfolding fifo using assms(2) by simp
  have cap: "conversation_turns (add_conversation_turn r c (add_turns calls s))
              = tl (conversation_turns (add_turns calls s) @ [\<lparr>role = r, content = c\<rparr>])"
    if "length calls \<ge> nat (max_turns s)"
  proof (rule add_turn_at_cap)
    show "int (length (conversation_turns (add_turns calls s))) = max_turns (add_turns calls s)"
      unfolding fifo add_turns_max using that assms(2) by simp
  qed
  from bound fifo cap show ?thesis by blast
qed


theorem conversation_turns_bounded_fifo_witness:
  "conversation_turns test_service = [] \<and> 0 \<le> max_turns test_service
   \<and> max_turns test_service = 8
   \<and> int (length (conversation_turns (add_turns ten_calls test_service))) \<le> 8
   \<and> conversation_turns (add_turns ten_calls test_service)
       = map record_of [(''user'', ''three''),
           (''assistant'', ''four''), (''user'', ''five''), (''assistant'', ''six''),
           (''user'', ''seven''), (''assistant'', ''eight''), (''user'', ''nine''),
           (''assistant'', ''ten'')]
   \<and> conversation_turns
         (add_conversation_turn ''user'' ''eleven'' (add_turns ten_calls test_service))
       = tl (conversation_turns (add_turns ten_calls test_service)
               @ [\<lparr>role = ''user'', content = ''eleven''\<rparr>])"
proof -
  have e: "conversation_turns test_service = []"
    by (simp add: test_service_def VoiceService_init_def)
  have m: "max_turns test_service = 8"
    by (simp add: test_service_def VoiceService_init_def)
  have p: "0 \<le> max_turns test_service" by (simp add: m)
  have l: "length ten_calls = 10" by (simp add: ten_calls_def)
  have d: "drop 2 ten_calls = [(''user'', ''three''),
           (''assistant'', ''four''), (''user'', ''five''), (''assistant'', ''six''),
           (''user'', ''seven''), (''assistant'', ''eight''), (''user'', ''nine''),
           (''assistant'', ''ten'')]" by (simp add: ten_calls_def)
  show ?thesis
    using conversation_turns_bounded_fifo [OF e p, of ten_calls "''user''" "''eleven''"] e m l d
    by (simp add: drop_map)
qed


section \<open>The inactivity timeout: claim C5\<close>

lemma check_context_timeout_empty:
  "conversation_turns s = [] \<Longrightarrow> check_context_timeout s = (PyNone, s)"
  by (simp add: check_context_timeout_def)

lemma check_context_timeout_quiet:
  "conversation_turns s \<noteq> [] \<Longrightarrow>
   clock s (ticks s) - last_activity_time s \<le> context_timeout s \<Longrightarrow>
   check_context_timeout s = (PyNone, s\<lparr>ticks := Suc (ticks s)\<rparr>)"
  by (simp add: check_context_timeout_def time_time_def)

lemma check_context_timeout_reset:
  "conversation_turns s \<noteq> [] \<Longrightarrow>
   clock s (ticks s) - last_activity_time s > context_timeout s \<Longrightarrow>
   check_context_timeout s =
     (PyNone, s\<lparr>stdout := stdout s @ [reset_event], conversation_turns := [],
                 ticks := Suc (Suc (ticks s)),
                 last_activity_time := clock s (Suc (ticks s))\<rparr>)"
  by (simp add: check_context_timeout_def time_time_def send_message_def reset_event_def)

lemma one_turn_service_fields:
  "conversation_turns one_turn_service = [\<lparr>role = ''user'', content = ''hello''\<rparr>]"
  "last_activity_time one_turn_service = 0"
  "context_timeout one_turn_service = 120"
  "max_turns one_turn_service = 8"
  "ticks one_turn_service = 0"
  "clock one_turn_service = (\<lambda>k. 100 + real k / 2)"
  "stdout one_turn_service = []"
  by (simp_all add: one_turn_service_def test_service_def VoiceService_init_def)

lemma stale_service_fields:
  "conversation_turns stale_service = [\<lparr>role = ''user'', content = ''hello''\<rparr>]"
  "last_activity_time stale_service = 0"
  "context_timeout stale_service = 120"
  "max_turns stale_service = 8"
  "ticks stale_service = 0"
  "clock stale_service = (\<lambda>k. 121 + real k / 2)"
  "stdout stale_service = []"
  by (simp_all add: stale_service_def one_turn_service_fields)

text \<open>
  C5 (as amended). \<open>check_context_timeout\<close> takes no argument and reads the clock itself.
  With an empty list of records it changes nothing and does not read the clock. With a
  non-empty list and a reading \<open>now\<close> such that \<open>now - last_activity_time\<close> is at most
  \<open>context_timeout\<close> it changes nothing but the clock reading consumed. With a non-empty
  list and \<open>now - last_activity_time > context_timeout\<close> it prints a debug event, empties the
  list and sets \<open>last_activity_time\<close> to the next clock reading. In every case the value it
  returns is \<open>None\<close>: a reset shows in the event and in the state only.
\<close>

theorem check_context_timeout_effect:
  "(conversation_turns a = [] \<longrightarrow> check_context_timeout a = (PyNone, a))
   \<and> (conversation_turns b \<noteq> []
        \<and> clock b (ticks b) - last_activity_time b \<le> context_timeout b
        \<longrightarrow> check_context_timeout b = (PyNone, b\<lparr>ticks := Suc (ticks b)\<rparr>))
   \<and> (conversation_turns c \<noteq> []
        \<and> clock c (ticks c) - last_activity_time c > context_timeout c
        \<longrightarrow> check_context_timeout c =
              (PyNone, c\<lparr>stdout := stdout c @ [reset_event], conversation_turns := [],
                          ticks := Suc (Suc (ticks c)),
                          last_activity_time := clock c (Suc (ticks c))\<rparr>))"
  using check_context_timeout_empty [of a] check_context_timeout_quiet [of b]
    check_context_timeout_reset [of c]
  by blast

theorem check_context_timeout_effect_witness:
  "conversation_turns test_service = []
   \<and> check_context_timeout test_service = (PyNone, test_service)
   \<and> conversation_turns one_turn_service \<noteq> []
   \<and> clock one_turn_service (ticks one_turn_service) - last_activity_time one_turn_service
        \<le> context_timeout one_turn_service
   \<and> check_context_timeout one_turn_service = (PyNone, one_turn_service\<lparr>ticks := Suc 0\<rparr>)
   \<and> conversation_turns stale_service \<noteq> []
   \<and> clock stale_service (ticks stale_service) - last_activity_time stale_service
        > context_timeout stale_service
   \<and> check_context_timeout stale_service =
        (PyNone, stale_service\<lparr>stdout := [reset_event], conversation_turns := [],
                               ticks := Suc (Suc 0), last_activity_time := 121 + 1 / 2\<rparr>)"
proof -
  have e: "conversation_turns test_service = []"
    by (simp add: test_service_def VoiceService_init_def)
  show ?thesis
    using check_context_timeout_effect [of test_service one_turn_service stale_service] e
    by (simp add: one_turn_service_fields stale_service_fields)
qed

text \<open>
  The claim as stated fails on the returned value: the call that resets the context and the
  call that leaves it alone both return \<open>None\<close>.
\<close>

theorem check_context_timeout_returns_none:
  "fst (check_context_timeout stale_service) = PyNone
   \<and> conversation_turns stale_service \<noteq> []
   \<and> conversation_turns (snd (check_context_timeout stale_service)) = []
   \<and> fst (check_context_timeout one_turn_service) = PyNone
   \<and> conversation_turns (snd (check_context_timeout one_turn_service))
       = conversation_turns one_turn_service"
proof -
  have q: "check_context_timeout one_turn_service = (PyNone, one_turn_service\<lparr>ticks := Suc 0\<rparr>)"
    using check_context_timeout_quiet [of one_turn_service]
    by (simp add: one_turn_service_fields)
  have r: "check_context_timeout stale_service =
        (PyNone, stale_service\<lparr>stdout := [reset_event], conversation_turns := [],
                               ticks := Suc (Suc 0), last_activity_time := 121 + 1 / 2\<rparr>)"
    using check_context_timeout_reset [of stale_service]
    by (simp add: stale_service_fields)
  show ?thesis unfolding q r by (simp add: stale_service_fields)
qed


section \<open>Response generation: claim C6\<close>

lemma fallback_response_nonempty: "fallback_response user_input \<noteq> []"
  by (simp add: fallback_response_def Let_def)

lemma send_message_fields:
  "ollama (send_message t k s) = ollama s"
  "posted (send_message t k s) = posted s"
  "conversation_turns (send_message t k s) = conversation_turns s"
  "system_prompt (send_message t k s) = system_prompt s"
  "whisper_calls (send_message t k s) = whisper_calls s"
  "tts_calls (send_message t k s) = tts_calls s"
  "should_stop (send_message t k s) = should_stop s"
  "is_muted (send_message t k s) = is_muted s"
  "stdout (send_message t k s) = stdout s @ [(t, k)]"
  by (simp_all add: send_message_def)

lemma build_messages_send_message:
  "build_messages u (send_message t k s) = build_messages u s"
  by (simp add: build_messages_def send_message_fields)

lemma generate_answer:
  "fst (generate_fast_response u s) =
     (case ollama s (length (posted s)) (build_messages u s) of
        Response status_code body \<Rightarrow>
          (if status_code = 200 then
             (case body of
                Inl e \<Rightarrow> fallback_response u
              | Inr raw \<Rightarrow>
                  if strip raw = [] then fallback_response u
                  else if fst (parse_dual_output (strip raw)) \<noteq> []
                    then fst (parse_dual_output (strip raw))
                    else fallback_response u)
           else fallback_response u)
      | _ \<Rightarrow> fallback_response u)"
  by (simp add: generate_fast_response_def Let_def send_message_fields
      build_messages_send_message split_beta split: http_result.split sum.split)


text \<open>
  C6. \<open>generate_fast_response\<close> returns in every case, and what it returns is never the
  empty string. When the request times out, the connection fails, another exception is
  raised, the status is not 200, the body cannot be decoded or its content is blank, it
  returns what the fallback responder returns; and the fallback responder returns a
  non-empty string for every input.
\<close>

theorem generate_fast_response_never_empty:
  "fst (generate_fast_response user_input s) \<noteq> []
   \<and> fallback_response user_input \<noteq> []
   \<and> (degraded (ollama s (length (posted s)) (build_messages user_input s))
        \<longrightarrow> fst (generate_fast_response user_input s) = fallback_response user_input)"
proof -
  have f: "fallback_response user_input \<noteq> []" by (rule fallback_response_nonempty)
  have n: "fst (generate_fast_response user_input s) \<noteq> []"
    unfolding generate_answer using f by (simp split: http_result.split sum.split)
  have d: "fst (generate_fast_response user_input s) = fallback_response user_input"
    if "degraded (ollama s (length (posted s)) (build_messages user_input s))"
    unfolding generate_answer using that
    by (cases "ollama s (length (posted s)) (build_messages user_input s)")
       (auto split: sum.split)
  from f n d show ?thesis by blast
qed

theorem generate_fast_response_never_empty_witness:
  "degraded (ollama failing_service (length (posted failing_service))
              (build_messages ''Can you help?'' failing_service))
   \<and> fst (generate_fast_response ''Can you help?'' failing_service)
       = ''I'' @ [CHR 0x27] @ ''ll work on that.''
   \<and> fst (generate_fast_response ''Can you help?'' failing_service) \<noteq> []"
proof -
  have o: "ollama failing_service (length (posted failing_service))
             (build_messages ''Can you help?'' failing_service) = Response 503 (Inr ''busy'')"
    by (simp add: failing_service_def)
  have f: "fallback_response ''Can you help?'' = ''I'' @ [CHR 0x27] @ ''ll work on that.''"
    by code_simp
  show ?thesis
    using generate_fast_response_never_empty [of "''Can you help?''" failing_service]
    unfolding o f by simp
qed


section \<open>The command listener: claim C9\<close>

lemma listen_step_invalid:
  assumes "line \<noteq> []" and "json_loads (strip line) = JSONDecodeError"
  shows "listen_step json_loads (Inr line) s = s\<lparr>stdout := stdout s @ [invalid_json_event]\<rparr>"
  using assms
  by (simp add: listen_step_def log_error_def send_message_def invalid_json_event_def)

text \<open>
  C9. For a line that is not empty and that \<open>json.loads\<close> rejects, one iteration of the
  listener prints the error event \<open>Invalid JSON command received\<close> and changes nothing else
  of the state: no command is handled. When the stop flag is not set, the loop then goes on
  with the next input.
\<close>

theorem invalid_json_line_ignored:
  "line \<noteq> [] \<and> json_loads (strip line) = JSONDecodeError \<longrightarrow>
     listen_step json_loads (Inr line) s = s\<lparr>stdout := stdout s @ [invalid_json_event]\<rparr>
     \<and> (\<not> should_stop s \<longrightarrow>
          listen_for_commands json_loads (Inr line # inputs) s
            = listen_for_commands json_loads inputs
                (s\<lparr>stdout := stdout s @ [invalid_json_event]\<rparr>))"
  using listen_step_invalid [of line json_loads s] by simp

theorem invalid_json_line_ignored_witness:
  "''mute'' @ [CHR 0x0A] \<noteq> []
   \<and> only_empty_object (strip (''mute'' @ [CHR 0x0A])) = JSONDecodeError
   \<and> \<not> should_stop test_service
   \<and> listen_step only_empty_object (Inr (''mute'' @ [CHR 0x0A])) test_service
       = test_service\<lparr>stdout := stdout test_service @ [invalid_json_event]\<rparr>
   \<and> stdout (listen_for_commands only_empty_object
               [Inr (''mute'' @ [CHR 0x0A]), Inr ''{}''] test_service)
       = [invalid_json_event, (''error'', [(''message'', ''Unknown command: None'')])]"
proof -
  have s: "strip (''mute'' @ [CHR 0x0A]) = ''mute''" by code_simp
  have d: "only_empty_object (strip (''mute'' @ [CHR 0x0A])) = JSONDecodeError"
    unfolding s by (simp add: only_empty_object_def)
  have t: "\<not> should_stop test_service" "stdout test_service = []"
    by (simp_all add: test_service_def VoiceService_init_def)
  have e: "strip ''{}'' = ''{}''" by code_simp
  have h: "listen_step only_empty_object (Inr ''{}'') x
             = x\<lparr>stdout := stdout x @ [(''error'', [(''message'', ''Unknown command: None'')])]\<rparr>"
    for x
    by (simp add: listen_step_def e only_empty_object_def handle_command_def empty_object_def
        get_def log_error_def send_message_def)
  show ?thesis
    using invalid_json_line_ignored
      [of "''mute'' @ [CHR 0x0A]" only_empty_object test_service "[Inr ''{}'']"] d t
    by (simp add: h)
qed


section \<open>Announcements: claim C7\<close>

lemma join_Cons: "join sep (x # xs) = x @ concat (map (\<lambda>y. sep @ y) xs)"
  by (induction xs arbitrary: x) simp_all

lemma read_items_tail:
  assumes "0 < i" and "i + length items = n"
  shows "read_items i n items a =
           a @ concat (map (\<lambda>y. '', '' @ y) (butlast items))
             @ (if items = [] then [] else '', and '' @ last items)"
  using assms
proof (induction items arbitrary: i a)
  case Nil
  show ?case by simp
next
  case (Cons x xs)
  show ?case
  proof (cases "xs = []")
    case True
    with Cons.prems show ?thesis by simp
  next
    case False
    from Cons.prems have i: "0 < Suc i" "Suc i + length xs = n" by simp_all
    from False Cons.prems have ne: "i \<noteq> n - 1" by (cases xs) auto
    from Cons.prems have "i \<noteq> 0" by simp
    with ne False show ?thesis
      using Cons.IH [OF i, of "a @ '', '' @ x"] by simp
  qed
qed

lemma read_items_full: "read_items 0 (length items) items a = a @ read_in_full items"
proof (cases items)
  case Nil
  then show ?thesis by (simp add: read_in_full_def)
next
  case (Cons x xs)
  show ?thesis
  proof (cases "xs = []")
    case True
    with Cons show ?thesis by (simp add: read_in_full_def)
  next
    case False
    have "read_items (Suc 0) (length items) xs (a @ x) =
            (a @ x) @ concat (map (\<lambda>y. '', '' @ y) (butlast xs))
              @ (if xs = [] then [] else '', and '' @ last xs)"
      by (rule read_items_tail) (simp_all add: Cons)
    with Cons False show ?thesis
      by (cases xs) (simp_all add: read_in_full_def join_Cons)
  qed
qed

lemma upt_3: "[0 ..< 3] = [0, Suc 0, 2]"
  by (simp add: numeral_3_eq_3 numeral_2_eq_2)

lemma read_first3_eq: "read_first3 items a = a @ first_three items"
  by (simp add: read_first3_def first_three_def upt_3)

lemma read_questions_tail:
  "0 < i \<Longrightarrow> read_questions i questions a = a @ concat (map (\<lambda>y. '' Also, '' @ y) questions)"
  by (induction questions arbitrary: i a) simp_all

lemma read_questions_full:
  "questions \<noteq> [] \<Longrightarrow> read_questions 0 questions a = a @ join '' Also, '' questions"
  by (cases questions) (simp_all add: join_Cons read_questions_tail)

lemma changes_stage:
  "(if changes \<noteq> [] then
      (if length changes \<le> 3
       then read_items 0 (length changes) changes (a @ ''. '')
       else (let announcement = read_first3 changes (a @ ''. '');
                 remaining = length changes - 3
             in announcement @ '', and '' @ str_nat remaining @ '' more change''
                  @ (if remaining > 1 then ''s'' else [])))
    else a) = a @ changes_part changes"
  by (simp add: Let_def read_items_full read_first3_eq changes_part_def)

lemma notes_stage:
  "(if ns \<noteq> [] then
      (if length ns \<le> 4
       then read_items 0 (length ns) ns (a @ ''. '')
       else (let announcement = read_first3 ns (a @ ''. '');
                 remaining = length ns - 3
             in announcement @ ''. There are '' @ str_nat remaining
                  @ '' more important things that need further investigation''))
    else a) = a @ notes_part ns"
  by (simp add: Let_def read_items_full read_first3_eq notes_part_def)

lemma risks_stage:
  "(if risks \<noteq> [] then
      (if length risks \<le> 2
       then read_items 0 (length risks) risks (a @ ''. However, '')
       else a @ ''. Note: '' @ str_nat (length risks)
              @ '' potential risks to be aware of'')
    else a) = a @ risks_part risks"
  by (simp add: read_items_full risks_part_def)

lemma questions_stage:
  "(if qs \<noteq> [] then read_questions 0 qs (a @ ''. '') else a) = a @ questions_part qs"
  by (simp add: read_questions_full questions_part_def)

lemma announcement_text_parts:
  "announcement_text txt changes ns risks next_questions
     = txt @ changes_part changes @ notes_part ns @ risks_part risks
         @ questions_part next_questions"
  unfolding announcement_text_def changes_stage notes_stage risks_stage questions_stage
  by (simp only: Let_def append_assoc)

lemma announce_examples:
  "format_for_tts (announcement_text ''Task completed'' [''a'', ''b'', ''c'', ''d''] [] [] [])
     = ''Task completed a, b, and c, and 1 more change''"
  "format_for_tts (announcement_text ''Task completed'' [''a'', ''b''] [] [] [])
     = ''Task completed a, and b''"
  "format_for_tts (announcement_text ''Task completed'' [] [] [''x'', ''y'', ''z''] [])
     = ''Task completed. Note: 3 potential risks to be aware of''"
  by code_simp+

lemma handle_command_announce:
  assumes "cmd_name c = Some ''announce''"
  shows "tts_calls (handle_command c s) =
           tts_calls s @
             [(format_for_tts
                 (announcement_text (get (cmd_text c) ''Task completed'') (get (cmd_changes c) [])
                    (get (cmd_notes c) []) (get (cmd_risks c) []) (get (cmd_next_questions c) [])),
               current_voice s)]"
  using assms
  by (simp add: handle_command_def Let_def time_time_def add_turn_eq speak_text_def
      send_message_def log_error_def split_beta split: option.split)

text \<open>
  C7 (as amended). The announcement is the headline followed by one part for each list that
  is not empty. At most 3 changes, 4 notes or 2 risks are read in full, with \<open>and\<close> before
  the last of two or more items. More than 3 changes are read as the first three items (with
  \<open>and\<close> before the third) followed by \<open>, and N more change(s)\<close>, where \<open>N\<close> is the number of
  items left out; more than 4 notes as the first three followed by \<open>There are N more
  important things that need further investigation\<close>; of more than 2 risks only the number is
  read, as \<open>Note: N potential risks to be aware of\<close>. The \<open>announce\<close> command speaks this
  text after \<open>_format_for_tts\<close>. With the default headline, the changes \<open>a, b, c, d\<close> are
  read as \<open>a, b, and c, and 1 more change\<close>, the changes \<open>a, b\<close> as \<open>a, and b\<close>, and three
  risks as \<open>Note: 3 potential risks to be aware of\<close>.
\<close>

theorem announcement_formatting:
  "announcement_text txt changes notes risks next_questions
     = txt @ changes_part changes @ notes_part notes @ risks_part risks
         @ questions_part next_questions
   \<and> (cmd_name c = Some ''announce'' \<longrightarrow>
        tts_calls (handle_command c s) =
          tts_calls s @
            [(format_for_tts
                (announcement_text (get (cmd_text c) ''Task completed'') (get (cmd_changes c) [])
                   (get (cmd_notes c) []) (get (cmd_risks c) []) (get (cmd_next_questions c) [])),
              current_voice s)])
   \<and> format_for_tts (announcement_text ''Task completed'' [''a'', ''b'', ''c'', ''d''] [] [] [])
       = ''Task completed a, b, and c, and 1 more change''
   \<and> format_for_tts (announcement_text ''Task completed'' [''a'', ''b''] [] [] [])
       = ''Task completed a, and b''
   \<and> format_for_tts (announcement_text ''Task completed'' [] [] [''x'', ''y'', ''z''] [])
       = ''Task completed. Note: 3 potential risks to be aware of''"
  using announcement_text_parts [of "txt" changes "notes" risks next_questions]
    handle_command_announce [of c s] announce_examples
  by blast

lemma announce_changes_fields:
  "cmd_name (announce_changes cs) = Some ''announce''"
  "get (cmd_text (announce_changes cs)) d = d"
  "get (cmd_changes (announce_changes cs)) [] = cs"
  "get (cmd_notes (announce_changes cs)) [] = []"
  "get (cmd_risks (announce_changes cs)) [] = []"
  "get (cmd_next_questions (announce_changes cs)) [] = []"
  by (simp_all add: announce_changes_def empty_object_def get_def)

lemma test_service_fields:
  "tts_calls test_service = []"
  "current_voice test_service = ''af_bella''"
  "conversation_turns test_service = []"
  "posted test_service = []"
  "whisper_calls test_service = []"
  "stdout test_service = []"
  "\<not> should_stop test_service"
  "\<not> is_muted test_service"
  "max_turns test_service = 8"
  "ticks test_service = 1"
  "system_prompt test_service = ''You are Jarvis.''"
  by (simp_all add: test_service_def VoiceService_init_def)

theorem announcement_formatting_witness:
  "cmd_name (announce_changes [''a'', ''b'']) = Some ''announce''
   \<and> tts_calls (handle_command (announce_changes [''a'', ''b'']) test_service)
       = [(''Task completed a, and b'', ''af_bella'')]"
proof -
  have spoken: "cmd_name (announce_changes [''a'', ''b'']) = Some ''announce'' \<longrightarrow>
      tts_calls (handle_command (announce_changes [''a'', ''b'']) test_service) =
        tts_calls test_service @
          [(format_for_tts
              (announcement_text (get (cmd_text (announce_changes [''a'', ''b''])) ''Task completed'')
                 (get (cmd_changes (announce_changes [''a'', ''b''])) [])
                 (get (cmd_notes (announce_changes [''a'', ''b''])) [])
                 (get (cmd_risks (announce_changes [''a'', ''b''])) [])
                 (get (cmd_next_questions (announce_changes [''a'', ''b''])) [])),
            current_voice test_service)]"
    using announcement_formatting
      [of "[]" "[]" "[]" "[]" "[]" "announce_changes [''a'', ''b'']" test_service]
    by blast
  have example: "format_for_tts (announcement_text ''Task completed'' [''a'', ''b''] [] [] [])
       = ''Task completed a, and b''"
    using announcement_formatting
      [of "[]" "[]" "[]" "[]" "[]" "announce_changes [''a'', ''b'']" test_service]
    by blast
  show ?thesis
    using spoken
    by (simp add: announce_changes_fields test_service_fields example)
qed

text \<open>
  The claim as stated fails on its first example: of four changes the first three are read,
  and the remainder that is stated is one change.
\<close>

theorem announce_four_changes:
  "tts_calls (handle_command (announce_changes [''a'', ''b'', ''c'', ''d'']) test_service)
     = [(''Task completed a, b, and c, and 1 more change'', ''af_bella'')]
   \<and> \<not> contains ''a, b, and 2 more changes'' ''Task completed a, b, and c, and 1 more change''"
proof -
  have n: "\<not> contains ''a, b, and 2 more changes''
             ''Task completed a, b, and c, and 1 more change''"
    by code_simp
  have t: "tts_calls (handle_command (announce_changes [''a'', ''b'', ''c'', ''d'']) test_service)
     = [(''Task completed a, b, and c, and 1 more change'', ''af_bella'')]"
    using handle_command_announce [of "announce_changes [''a'', ''b'', ''c'', ''d'']" test_service]
    by (simp add: announce_changes_fields test_service_fields announce_examples)
  from t n show ?thesis by blast
qed


section \<open>The audio loop: frame conditions\<close>

lemma min_frames: "py_int (MIN_SPEECH_DURATION * real_of_int sample_rate / real_of_int CHUNK_SIZE) = 7"
  by (simp add: py_int_def MIN_SPEECH_DURATION_def sample_rate_def CHUNK_SIZE_def)


lemma speak_text_fields:
  "posted (speak_text t s) = posted s"
  "conversation_turns (speak_text t s) = conversation_turns s"
  "whisper_calls (speak_text t s) = whisper_calls s"
  "should_stop (speak_text t s) = should_stop s"
  "is_muted (speak_text t s) = is_muted s"
  "tts_calls (speak_text t s) = tts_calls s @ [(t, current_voice s)]"
  "stdout (speak_text t s) = stdout s @ tts_error_events t s"
  by (simp_all add: speak_text_def Let_def log_error_def send_message_def tts_error_events_def
      split: option.split)





section \<open>The audio loop: one iteration\<close>

lemma loop_body_muted:
  "is_muted (snd (check_context_timeout s)) \<Longrightarrow>
   loop_body input v s = (Continue, v, snd (check_context_timeout s))"
  by (simp add: loop_body_def)

lemma loop_body_read_error:
  "\<not> is_muted (snd (check_context_timeout s)) \<Longrightarrow>
   loop_body (Inl e) v s
     = (Continue, v, log_error (''Error in audio loop: '' @ e) (snd (check_context_timeout s)))"
  by (simp add: loop_body_def)

lemma loop_body_speech:
  assumes "\<not> is_muted (snd (check_context_timeout s))" and "is_speech c"
  shows "loop_body (Inr c) v s =
           (Continue,
            (if recording v then v else v\<lparr>recording := True, speech_detected := True\<rparr>)
              \<lparr>frames := frames v @ [c], silence_start := None\<rparr>,
            (if recording v then snd (check_context_timeout s)
             else send_message ''user_speaking'' [] (snd (check_context_timeout s))))"
  using assms by (simp add: loop_body_def Let_def is_speech_def)

lemma loop_body_silence_idle:
  assumes "\<not> is_muted (snd (check_context_timeout s))" and "\<not> is_speech c"
    and "\<not> recording v"
  shows "loop_body (Inr c) v s = (Continue, v, snd (check_context_timeout s))"
  using assms by (simp add: loop_body_def Let_def is_speech_def)

lemma loop_body_silence_recording:
  assumes "\<not> is_muted s1" and "\<not> is_speech c" and "recording v"
    and "s1 = snd (check_context_timeout s)"
    and "v1 = v\<lparr>silence_start := Some (silence_began v s1), frames := frames v @ [c]\<rparr>"
    and "s2 = s1\<lparr>ticks := Suc (silence_checked v s1)\<rparr>"
  shows "loop_body (Inr c) v s =
           (if clock s1 (silence_checked v s1) - silence_began v s1 \<ge> SILENCE_DURATION then
              (if speech_detected v \<and> 7 < length (frames v @ [c]) then transcribe_turn v1 s2
               else (Continue, vad_reset v1, s2))
            else (Continue, v1, s2))"
  using assms
  by (cases "silence_start v")
     (simp_all add: loop_body_def Let_def is_speech_def time_time_def min_frames
        silence_began_def silence_checked_def)


section \<open>The audio loop: runs of frames\<close>

lemma audio_loop_continue:
  "\<not> should_stop s \<Longrightarrow> loop_body input v s = (Continue, v', s') \<Longrightarrow>
   audio_loop (input # inputs) v s = audio_loop inputs v' s'"
  by simp

lemma audio_loop_break:
  "\<not> should_stop s \<Longrightarrow> loop_body input v s = (Break, v', s') \<Longrightarrow>
   audio_loop (input # inputs) v s = (v', s')"
  by simp


lemma listening_check: "listening s \<Longrightarrow> snd (check_context_timeout s) = s"
  by (simp add: listening_def check_context_timeout_def)

lemma listening_user_speaking: "listening s \<Longrightarrow> listening (send_message ''user_speaking'' [] s)"
  by (simp add: listening_def send_message_def)

lemma listening_ticks: "listening s \<Longrightarrow> listening (s\<lparr>ticks := n\<rparr>)"
  by (simp add: listening_def)

lemma speech_run:
  assumes "listening s" and "recording v" and "\<forall>c\<in>set cs. is_speech c"
  shows "audio_loop (map Inr cs @ rest) v s =
           audio_loop rest
             (v\<lparr>frames := frames v @ cs,
                silence_start := (if cs = [] then silence_start v else None)\<rparr>) s"
  using assms(2,3)
proof (induction cs arbitrary: v)
  case Nil
  show ?case by simp
next
  case (Cons c cs)
  let ?v = "v\<lparr>frames := frames v @ [c], silence_start := None\<rparr>"
  have m: "\<not> is_muted (snd (check_context_timeout s))" "\<not> should_stop s"
    using assms(1) by (simp_all add: listening_check) (simp_all add: listening_def)
  have "loop_body (Inr c) v s = (Continue, ?v, s)"
    using loop_body_speech [OF m(1), of c v] Cons.prems assms(1)
    by (simp add: listening_check)
  then have "audio_loop (map Inr (c # cs) @ rest) v s = audio_loop (map Inr cs @ rest) ?v s"
    using m(2) by simp
  also have "\<dots> = audio_loop rest
       (?v\<lparr>frames := frames ?v @ cs,
           silence_start := (if cs = [] then silence_start ?v else None)\<rparr>) s"
    using Cons.prems by (intro Cons.IH) simp_all
  finally show ?case by simp
qed

lemma speech_burst:
  assumes "listening s" and "\<not> recording v" and "\<forall>c\<in>set cs. is_speech c" and "cs \<noteq> []"
  shows "audio_loop (map Inr cs @ rest) v s =
           audio_loop rest
             (v\<lparr>recording := True, speech_detected := True, frames := frames v @ cs,
                silence_start := None\<rparr>)
             (send_message ''user_speaking'' [] s)"
proof -
  from assms(4) obtain c cs' where cs: "cs = c # cs'" by (cases cs) auto
  let ?v = "v\<lparr>recording := True, speech_detected := True, frames := frames v @ [c],
               silence_start := None\<rparr>"
  let ?s = "send_message ''user_speaking'' [] s"
  have m: "\<not> is_muted (snd (check_context_timeout s))" "\<not> should_stop s"
    using assms(1) by (simp_all add: listening_check) (simp_all add: listening_def)
  have "loop_body (Inr c) v s = (Continue, ?v, ?s)"
    using loop_body_speech [OF m(1), of c v] assms(1,2,3) cs
    by (simp add: listening_check)
  then have "audio_loop (map Inr cs @ rest) v s = audio_loop (map Inr cs' @ rest) ?v ?s"
    using m(2) cs by simp
  also have "\<dots> = audio_loop rest
       (?v\<lparr>frames := frames ?v @ cs',
           silence_start := (if cs' = [] then silence_start ?v else None)\<rparr>) ?s"
    using assms(1,3) cs by (intro speech_run listening_user_speaking) simp_all
  finally show ?thesis using cs by simp
qed

lemma silence_run:
  assumes "listening s" and "recording v" and "silence_start v = Some t0"
    and "\<forall>c\<in>set cs. \<not> is_speech c"
    and "\<forall>j<length cs. clock s (ticks s + j) - t0 < SILENCE_DURATION"
  shows "audio_loop (map Inr cs @ rest) v s =
           audio_loop rest (v\<lparr>frames := frames v @ cs\<rparr>) (s\<lparr>ticks := ticks s + length cs\<rparr>)"
  using assms
proof (induction cs arbitrary: v s)
  case Nil
  show ?case by simp
next
  case (Cons c cs)
  let ?v = "v\<lparr>frames := frames v @ [c]\<rparr>"
  let ?s = "s\<lparr>ticks := Suc (ticks s)\<rparr>"
  have chk: "snd (check_context_timeout s) = s" using Cons.prems(1) by (rule listening_check)
  have m: "\<not> is_muted s" "\<not> should_stop s"
    using Cons.prems(1) by (simp_all add: listening_def)
  have now: "clock s (ticks s) - t0 < SILENCE_DURATION"
    using Cons.prems(5) by auto
  have v1: "v\<lparr>silence_start := Some (silence_began v s), frames := frames v @ [c]\<rparr> = ?v"
    using Cons.prems(3) by (simp add: silence_began_def)
  have body: "loop_body (Inr c) v s = (Continue, ?v, ?s)"
    using loop_body_silence_recording [of s c v s "?v" "?s"] m(1) Cons.prems(2,3,4) now chk v1
    by (simp add: silence_began_def silence_checked_def)
  have later: "\<forall>j<length cs. clock ?s (ticks ?s + j) - t0 < SILENCE_DURATION"
    using Cons.prems(5) by auto
  have "audio_loop (map Inr (c # cs) @ rest) v s = audio_loop (map Inr cs @ rest) ?v ?s"
    using body m(2) by simp
  also have "\<dots> = audio_loop rest (?v\<lparr>frames := frames ?v @ cs\<rparr>)
                       (?s\<lparr>ticks := ticks ?s + length cs\<rparr>)"
    using Cons.prems(1,2,3,4) later
    by (intro Cons.IH listening_ticks) simp_all
  finally show ?case by simp
qed

lemma silence_gap:
  assumes "listening s" and "recording v" and "silence_start v = None"
    and "\<forall>c\<in>set cs. \<not> is_speech c" and "cs \<noteq> []"
    and "\<forall>j. 1 \<le> j \<and> j \<le> length cs \<longrightarrow>
           clock s (ticks s + j) - clock s (ticks s) < SILENCE_DURATION"
  shows "audio_loop (map Inr cs @ rest) v s =
           audio_loop rest
             (v\<lparr>silence_start := Some (clock s (ticks s)), frames := frames v @ cs\<rparr>)
             (s\<lparr>ticks := ticks s + length cs + 1\<rparr>)"
proof -
  from assms(5) obtain c cs' where cs: "cs = c # cs'" by (cases cs) auto
  let ?v = "v\<lparr>silence_start := Some (clock s (ticks s)), frames := frames v @ [c]\<rparr>"
  let ?s = "s\<lparr>ticks := Suc (Suc (ticks s))\<rparr>"
  have chk: "snd (check_context_timeout s) = s" using assms(1) by (rule listening_check)
  have m: "\<not> is_muted s" "\<not> should_stop s"
    using assms(1) by (simp_all add: listening_def)
  have first: "clock s (Suc (ticks s)) - clock s (ticks s) < SILENCE_DURATION"
    using assms(6) [rule_format, of 1] cs by simp
  have body: "loop_body (Inr c) v s = (Continue, ?v, ?s)"
    using loop_body_silence_recording [of s c v s "?v" "?s"] m(1) assms(2,3,4) first chk cs
    by (simp add: silence_began_def silence_checked_def)
  have later: "\<forall>j<length cs'. clock ?s (ticks ?s + j) - clock s (ticks s) < SILENCE_DURATION"
  proof (intro allI impI)
    fix j assume "j < length cs'"
    then have "clock s (ticks s + (j + 2)) - clock s (ticks s) < SILENCE_DURATION"
      using assms(6) [rule_format, of "j + 2"] cs by simp
    then show "clock ?s (ticks ?s + j) - clock s (ticks s) < SILENCE_DURATION"
      by (simp add: add.commute)
  qed
  have "audio_loop (map Inr cs @ rest) v s = audio_loop (map Inr cs' @ rest) ?v ?s"
    using body m(2) cs by simp
  also have "\<dots> = audio_loop rest (?v\<lparr>frames := frames ?v @ cs'\<rparr>)
                       (?s\<lparr>ticks := ticks ?s + length cs'\<rparr>)"
    using assms(1,2,4) later cs
    by (intro silence_run [where ?t0.0 = "clock s (ticks s)"] listening_ticks) simp_all
  finally show ?thesis using cs by simp
qed




section \<open>The audio loop in any context\<close>

lemma check_context_timeout_fields:
  "is_muted (snd (check_context_timeout s)) = is_muted s"
  "should_stop (snd (check_context_timeout s)) = should_stop s"
  "whisper_calls (snd (check_context_timeout s)) = whisper_calls s"
  by (simp_all add: check_context_timeout_def time_time_def send_message_def Let_def split_beta)


lemma audio_loop_stopped: "should_stop s \<Longrightarrow> audio_loop inputs v s = (v, s)"
  by (cases inputs) simp_all

lemma respond_break_stops:
  assumes "fst (respond t v s) = Break"
  shows "should_stop (snd (snd (respond t v s)))"
proof (cases "contains ''goodbye'' (lower t) \<or> contains ''exit'' (lower t)")
  case True
  then show ?thesis unfolding respond_def Let_def by simp
next
  case False
  then have "fst (respond t v s) = Continue"
    unfolding respond_def Let_def by (simp add: split_beta)
  with assms show ?thesis by simp
qed

lemma transcribe_turn_break_stops:
  assumes "fst (transcribe_turn v s) = Break"
  shows "should_stop (snd (snd (transcribe_turn v s)))"
proof (cases "whisper s (length (whisper_calls s)) (concat (frames v))")
  case (Inl e)
  with assms show ?thesis by (simp add: transcribe_turn_def)
next
  case (Inr segments)
  show ?thesis
  proof (cases "strip (join '' '' segments) = []")
    case True
    with Inr assms show ?thesis by (simp add: transcribe_turn_def)
  next
    case False
    with Inr have "transcribe_turn v s
        = respond (strip (join '' '' segments)) v (s\<lparr>whisper_calls := whisper_calls s @ [frames v]\<rparr>)"
      by (simp add: transcribe_turn_def)
    with assms show ?thesis by (simp add: respond_break_stops)
  qed
qed

lemma loop_body_break_stops:
  assumes "fst (loop_body input v s) = Break"
  shows "should_stop (snd (snd (loop_body input v s)))"
proof (cases "is_muted (snd (check_context_timeout s))")
  case True
  with assms show ?thesis by (simp add: loop_body_muted)
next
  case unmuted: False
  show ?thesis
  proof (cases input)
    case (Inl e)
    with unmuted assms show ?thesis by (simp add: loop_body_read_error)
  next
    case (Inr c)
    show ?thesis
    proof (cases "is_speech c")
      case True
      with assms show ?thesis
        unfolding Inr loop_body_speech [OF unmuted True] by simp
    next
      case silent: False
      show ?thesis
      proof (cases "recording v")
        case False
        with assms show ?thesis
          unfolding Inr loop_body_silence_idle [OF unmuted silent False] by simp
      next
        case True
        from assms show ?thesis
          unfolding Inr loop_body_silence_recording [OF unmuted silent True refl refl refl]
          by (simp add: transcribe_turn_break_stops split: if_splits)
      qed
    qed
  qed
qed

lemma audio_loop_append:
  "audio_loop (xs @ ys) v s = audio_loop ys (fst (audio_loop xs v s)) (snd (audio_loop xs v s))"
proof (induction xs arbitrary: v s)
  case Nil
  show ?case by simp
next
  case (Cons x xs)
  show ?case
  proof (cases "should_stop s")
    case True
    then show ?thesis by (simp add: audio_loop_stopped)
  next
    case False
    obtain k v' s' where body: "loop_body x v s = (k, v', s')"
      by (cases "loop_body x v s" rule: prod_cases3)
    show ?thesis
    proof (cases k)
      case Continue
      with False body show ?thesis using Cons.IH [of v' s'] by simp
    next
      case Break
      with body have "should_stop s'" using loop_body_break_stops [of x v s] by simp
      with False body Break show ?thesis by (simp add: audio_loop_stopped)
    qed
  qed
qed








section \<open>A turn resumed after a short silence: claim C4\<close>

lemma calculate_energy_replicate:
  "0 < n \<Longrightarrow> calculate_energy (replicate n w) = real_of_int (sint (np_abs w))"
  by (simp add: calculate_energy_def sum_list_replicate)

lemma loud_is_speech: "is_speech loud"
  by (simp add: is_speech_def loud_def calculate_energy_replicate np_abs_def
      SILENCE_THRESHOLD_def)

lemma hush_is_silence: "\<not> is_speech hush"
  by (simp add: is_speech_def hush_def calculate_energy_replicate np_abs_def
      SILENCE_THRESHOLD_def)

lemma vad_init_fields:
  "\<not> recording vad_init" "frames vad_init = []" "silence_start vad_init = None"
  "\<not> speech_detected vad_init"
  by (simp_all add: vad_init_def)
















section \<open>Short turns: claim C3\<close>




lemma listening_send_message: "listening s \<Longrightarrow> listening (send_message t k s)"
  by (simp add: listening_def send_message_def)




lemma started:
  "listening s \<Longrightarrow> listening (send_message ''listening'' [] (send_message ''ready'' [] s))"
  "clock (send_message ''listening'' [] (send_message ''ready'' [] s)) = clock s"
  "ticks (send_message ''listening'' [] (send_message ''ready'' [] s)) = ticks s"
  "whisper (send_message ''listening'' [] (send_message ''ready'' [] s)) = whisper s"
  by (simp_all add: listening_def send_message_def)










section \<open>The spoken exit: claim C10\<close>

lemma check_context_timeout_env:
  "posted (snd (check_context_timeout s)) = posted s"
  "tts_calls (snd (check_context_timeout s)) = tts_calls s"
  "kokoro (snd (check_context_timeout s)) = kokoro s"
  "current_voice (snd (check_context_timeout s)) = current_voice s"
  "whisper (snd (check_context_timeout s)) = whisper s"
  by (simp_all add: check_context_timeout_def time_time_def send_message_def Let_def split_beta)

lemma respond_exit:
  assumes "contains ''goodbye'' (lower t) \<or> contains ''exit'' (lower t)"
  shows "respond t v s =
           (Break, v,
            (speak_text ''Goodbye!''
               (send_message ''jarvis_speaking'' [(''text'', ''Goodbye!'')]
                  (send_message ''transcription'' [(''text'', t)] s)))\<lparr>should_stop := True\<rparr>)"
  using assms unfolding respond_def Let_def by simp

lemma transcribe_turn_text:
  assumes "whisper s (length (whisper_calls s)) (concat (frames v)) = Inr segments"
    and "strip (join '' '' segments) \<noteq> []"
  shows "transcribe_turn v s
           = respond (strip (join '' '' segments)) v
               (s\<lparr>whisper_calls := whisper_calls s @ [frames v]\<rparr>)"
  using assms by (simp add: transcribe_turn_def)

lemma cough_open:
  assumes "listening s" and "0 < n"
    and "\<forall>j. 1 \<le> j \<and> j \<le> n \<longrightarrow>
           clock s (ticks s + j) - clock s (ticks s) < SILENCE_DURATION"
  shows "audio_loop (map Inr (cough n)) vad_init s =
           (\<lparr>recording = True, frames = cough n, silence_start = Some (clock s (ticks s)),
             speech_detected = True\<rparr>,
            (send_message ''user_speaking'' [] s)\<lparr>ticks := ticks s + n + 1\<rparr>)"
proof -
  let ?s1 = "send_message ''user_speaking'' [] s"
  let ?v1 = "\<lparr>recording = True, frames = [loud], silence_start = None, speech_detected = True\<rparr>"
  have l1: "listening ?s1" using assms(1) by (rule listening_user_speaking)
  have f1: "ticks ?s1 = ticks s" "clock ?s1 = clock s" by (simp_all add: send_message_def)
  have "audio_loop (map Inr (cough n)) vad_init s
          = audio_loop (map Inr [loud] @ map Inr (replicate n hush)) vad_init s"
    by (simp add: cough_def)
  also have "\<dots> = audio_loop (map Inr (replicate n hush) @ []) ?v1 ?s1"
    using speech_burst [OF assms(1) vad_init_fields(1), of "[loud]" "map Inr (replicate n hush)"]
    by (simp add: loud_is_speech vad_init_def)
  also have "\<dots> = audio_loop []
       (?v1\<lparr>silence_start := Some (clock ?s1 (ticks ?s1)),
             frames := frames ?v1 @ replicate n hush\<rparr>)
       (?s1\<lparr>ticks := ticks ?s1 + length (replicate n hush) + 1\<rparr>)"
    using assms(2,3) by (intro silence_gap [OF l1]) (simp_all add: f1 hush_is_silence)
  finally show ?thesis by (simp add: f1 cough_def)
qed

lemma farewell_service_fields:
  "listening farewell_service" "clock farewell_service = (\<lambda>k. real k * 64 / 1000)"
  "ticks farewell_service = 1" "stdout farewell_service = []"
  "whisper_calls farewell_service = []" "tts_calls farewell_service = []"
  "posted farewell_service = []" "conversation_turns farewell_service = []"
  "current_voice farewell_service = ''af_bella''"
  "whisper farewell_service = (\<lambda>n samples. Inr ['' Okay, Goodbye'', '' Jarvis. ''])"
  "kokoro farewell_service = (\<lambda>n txt voice. None)"
  by (simp_all add: farewell_service_def paced_service_def test_service_def
      VoiceService_init_def listening_def)

lemma farewell_text:
  "strip (join '' '' ['' Okay, Goodbye'', '' Jarvis. '']) = ''Okay, Goodbye  Jarvis.''"
  "contains ''goodbye'' (lower ''Okay, Goodbye  Jarvis.'')"
  by code_simp+

lemma farewell_heard:
  "process_audio_loop (map Inr (cough 15)) farewell_service =
     (\<lparr>recording = True, frames = cough 15, silence_start = Some (64 / 1000),
       speech_detected = True\<rparr>,
      (send_message ''user_speaking'' []
         (send_message ''listening'' [] (send_message ''ready'' [] farewell_service)))
        \<lparr>ticks := 17\<rparr>)"
proof -
  let ?p = "send_message ''listening'' [] (send_message ''ready'' [] farewell_service)"
  have "audio_loop (map Inr (cough 15)) vad_init ?p =
           (\<lparr>recording = True, frames = cough 15, silence_start = Some (clock ?p (ticks ?p)),
             speech_detected = True\<rparr>,
            (send_message ''user_speaking'' [] ?p)\<lparr>ticks := ticks ?p + 15 + 1\<rparr>)"
  proof (rule cough_open [OF started(1) [OF farewell_service_fields(1)]])
    show "\<forall>j. 1 \<le> j \<and> j \<le> 15 \<longrightarrow>
           clock ?p (ticks ?p + j) - clock ?p (ticks ?p) < SILENCE_DURATION"
    proof (intro allI impI)
      fix j :: nat assume "1 \<le> j \<and> j \<le> 15"
      then have "real j \<le> 15" by simp
      then show "clock ?p (ticks ?p + j) - clock ?p (ticks ?p) < SILENCE_DURATION"
        by (simp add: started farewell_service_fields SILENCE_DURATION_def field_simps)
    qed
  qed simp
  then show ?thesis by (simp add: process_audio_loop_def started farewell_service_fields)
qed

text \<open>
  C10. When the silence timeout ends a turn of more than 7 frames with speech in it, and the
  transcript, its segments joined and trimmed, contains \<open>goodbye\<close> or \<open>exit\<close> in any
  letter case, the iteration prints the \<open>transcription\<close> event and the \<open>jarvis_speaking\<close>
  event of the fixed response \<open>Goodbye!\<close>, speaks that response, sets the stop flag and
  leaves the loop: the inputs that follow are not read. The conversation context is left as
  the inactivity check of this iteration left it, and nothing is posted to the language
  model.
\<close>

theorem goodbye_shuts_down:
  assumes "\<not> is_muted s" and "\<not> should_stop s"
    and "\<not> is_speech c" and "recording v" and "speech_detected v"
    and "7 < length (frames v @ [c])"
    and "SILENCE_DURATION \<le> silence_elapsed v s"
    and "whisper s (length (whisper_calls s)) (concat (frames v @ [c])) = Inr segments"
    and "t = strip (join '' '' segments)"
    and "contains ''goodbye'' (lower t) \<or> contains ''exit'' (lower t)"
  shows "stdout (snd (audio_loop (Inr c # inputs) v s))
           = stdout (snd (check_context_timeout s))
             @ [(''transcription'', [(''text'', t)]),
                (''jarvis_speaking'', [(''text'', ''Goodbye!'')])]
             @ tts_error_events ''Goodbye!'' s
       \<and> tts_calls (snd (audio_loop (Inr c # inputs) v s))
           = tts_calls s @ [(''Goodbye!'', current_voice s)]
       \<and> should_stop (snd (audio_loop (Inr c # inputs) v s))
       \<and> conversation_turns (snd (audio_loop (Inr c # inputs) v s))
           = conversation_turns (snd (check_context_timeout s))
       \<and> posted (snd (audio_loop (Inr c # inputs) v s)) = posted s
       \<and> whisper_calls (snd (audio_loop (Inr c # inputs) v s))
           = whisper_calls s @ [frames v @ [c]]
       \<and> audio_loop (Inr c # inputs) v s = audio_loop [Inr c] v s"
proof -
  let ?s1 = "snd (check_context_timeout s)"
  let ?v1 = "v\<lparr>silence_start := Some (silence_began v ?s1), frames := frames v @ [c]\<rparr>"
  let ?s2 = "?s1\<lparr>ticks := Suc (silence_checked v ?s1)\<rparr>"
  let ?s3 = "?s2\<lparr>whisper_calls := whisper_calls ?s2 @ [frames ?v1]\<rparr>"
  let ?s4 = "(speak_text ''Goodbye!''
               (send_message ''jarvis_speaking'' [(''text'', ''Goodbye!'')]
                  (send_message ''transcription'' [(''text'', t)] ?s3)))\<lparr>should_stop := True\<rparr>"
  have m: "\<not> is_muted ?s1" using assms(1) by (simp add: check_context_timeout_fields)
  have e: "SILENCE_DURATION \<le> clock ?s1 (silence_checked v ?s1) - silence_began v ?s1"
    using assms(7) by (simp add: silence_elapsed_def Let_def)
  have ne: "t \<noteq> []" using assms(10) by (auto simp add: lower_def)
  have w: "whisper ?s2 (length (whisper_calls ?s2)) (concat (frames ?v1)) = Inr segments"
    using assms(8) by (simp add: check_context_timeout_env check_context_timeout_fields)
  have "loop_body (Inr c) v s = transcribe_turn ?v1 ?s2"
    using loop_body_silence_recording [OF m assms(3,4) refl refl refl] e assms(5,6) by simp
  also have "\<dots> = respond t ?v1 ?s3"
    using transcribe_turn_text [OF w] ne assms(9) by simp
  also have "\<dots> = (Break, ?v1, ?s4)"
    using assms(10) by (rule respond_exit)
  finally have body: "loop_body (Inr c) v s = (Break, ?v1, ?s4)" .
  define s5 where "s5 = send_message ''jarvis_speaking'' [(''text'', ''Goodbye!'')]
                          (send_message ''transcription'' [(''text'', t)] ?s3)"
  have left: "loop_body (Inr c) v s
                = (Break, ?v1, (speak_text ''Goodbye!'' s5)\<lparr>should_stop := True\<rparr>)"
    using body unfolding s5_def .
  have loop: "audio_loop (Inr c # inputs) v s
                = (?v1, (speak_text ''Goodbye!'' s5)\<lparr>should_stop := True\<rparr>)" for inputs
    using assms(2) left by simp
  have f: "stdout s5 = stdout ?s1 @ [(''transcription'', [(''text'', t)]),
                                     (''jarvis_speaking'', [(''text'', ''Goodbye!'')])]"
    "tts_calls s5 = tts_calls s" "current_voice s5 = current_voice s"
    "conversation_turns s5 = conversation_turns ?s1" "posted s5 = posted s"
    "whisper_calls s5 = whisper_calls s @ [frames v @ [c]]"
    "tts_error_events ''Goodbye!'' s5 = tts_error_events ''Goodbye!'' s"
    by (simp_all add: s5_def send_message_def tts_error_events_def check_context_timeout_env
        check_context_timeout_fields)
  show ?thesis
    unfolding loop snd_conv
    by (simp add: speak_text_fields f)
qed

theorem goodbye_shuts_down_witness:
  "\<not> is_muted (snd (process_audio_loop (map Inr (cough 15)) farewell_service))
   \<and> \<not> should_stop (snd (process_audio_loop (map Inr (cough 15)) farewell_service))
   \<and> \<not> is_speech hush
   \<and> recording (fst (process_audio_loop (map Inr (cough 15)) farewell_service))
   \<and> speech_detected (fst (process_audio_loop (map Inr (cough 15)) farewell_service))
   \<and> length (frames (fst (process_audio_loop (map Inr (cough 15)) farewell_service)) @ [hush])
       = 17
   \<and> SILENCE_DURATION
       \<le> silence_elapsed (fst (process_audio_loop (map Inr (cough 15)) farewell_service))
            (snd (process_audio_loop (map Inr (cough 15)) farewell_service))
   \<and> contains ''goodbye'' (lower (strip (join '' '' ['' Okay, Goodbye'', '' Jarvis. ''])))
   \<and> stdout (snd (process_audio_loop (map Inr (cough 15) @ Inr hush # map Inr resumed_turn)
                    farewell_service))
       = [(''ready'', []), (''listening'', []), (''user_speaking'', []),
          (''transcription'', [(''text'', ''Okay, Goodbye  Jarvis.'')]),
          (''jarvis_speaking'', [(''text'', ''Goodbye!'')])]
   \<and> tts_calls (snd (process_audio_loop (map Inr (cough 15) @ Inr hush # map Inr resumed_turn)
                       farewell_service))
       = [(''Goodbye!'', ''af_bella'')]
   \<and> should_stop (snd (process_audio_loop
                         (map Inr (cough 15) @ Inr hush # map Inr resumed_turn)
                         farewell_service))
   \<and> conversation_turns (snd (process_audio_loop
                         (map Inr (cough 15) @ Inr hush # map Inr resumed_turn)
                         farewell_service)) = []
   \<and> posted (snd (process_audio_loop (map Inr (cough 15) @ Inr hush # map Inr resumed_turn)
                    farewell_service)) = []
   \<and> whisper_calls (snd (process_audio_loop
                         (map Inr (cough 15) @ Inr hush # map Inr resumed_turn)
                         farewell_service)) = [cough 16]"
proof -
  let ?v = "\<lparr>recording = True, frames = cough 15, silence_start = Some (64 / 1000),
             speech_detected = True\<rparr>"
  let ?s = "(send_message ''user_speaking'' []
              (send_message ''listening'' [] (send_message ''ready'' [] farewell_service)))
             \<lparr>ticks := 17\<rparr>"
  let ?rest = "map Inr resumed_turn :: (string + chunk) list"
  have l: "listening ?s"
    by (intro listening_ticks listening_user_speaking started(1) farewell_service_fields(1))
  have chk: "snd (check_context_timeout ?s) = ?s" using l by (rule listening_check)
  have m: "\<not> is_muted ?s" "\<not> should_stop ?s" using l by (simp_all add: listening_def)
  have f: "clock ?s = (\<lambda>k. real k * 64 / 1000)" "ticks ?s = 17"
    "stdout ?s = [(''ready'', []), (''listening'', []), (''user_speaking'', [])]"
    "whisper_calls ?s = []" "tts_calls ?s = []" "posted ?s = []" "conversation_turns ?s = []"
    "current_voice ?s = ''af_bella''"
    "whisper ?s = (\<lambda>n samples. Inr ['' Okay, Goodbye'', '' Jarvis. ''])"
    "tts_error_events ''Goodbye!'' ?s = []"
    by (simp_all add: send_message_def farewell_service_fields tts_error_events_def)
  have e: "SILENCE_DURATION \<le> silence_elapsed ?v ?s"
    unfolding silence_elapsed_def chk Let_def
    by (simp add: f silence_checked_def silence_began_def SILENCE_DURATION_def)
  have split: "process_audio_loop (map Inr (cough 15) @ Inr hush # ?rest) farewell_service
                 = audio_loop (Inr hush # ?rest) ?v ?s"
    using audio_loop_append [of "map Inr (cough 15)" "Inr hush # ?rest" vad_init
        "send_message ''listening'' [] (send_message ''ready'' [] farewell_service)"]
      farewell_heard
    by (simp add: process_audio_loop_def)
  have c16: "frames ?v @ [hush] = cough 16" by (simp add: cough_def replicate_append_same eval_nat_numeral)
  note t = goodbye_shuts_down [OF m hush_is_silence, of ?v
      "['' Okay, Goodbye'', '' Jarvis. '']" "''Okay, Goodbye  Jarvis.''" ?rest]
  have "stdout (snd (audio_loop (Inr hush # ?rest) ?v ?s))
           = stdout (snd (check_context_timeout ?s))
             @ [(''transcription'', [(''text'', ''Okay, Goodbye  Jarvis.'')]),
                (''jarvis_speaking'', [(''text'', ''Goodbye!'')])]
             @ tts_error_events ''Goodbye!'' ?s
       \<and> tts_calls (snd (audio_loop (Inr hush # ?rest) ?v ?s))
           = tts_calls ?s @ [(''Goodbye!'', current_voice ?s)]
       \<and> should_stop (snd (audio_loop (Inr hush # ?rest) ?v ?s))
       \<and> conversation_turns (snd (audio_loop (Inr hush # ?rest) ?v ?s))
           = conversation_turns (snd (check_context_timeout ?s))
       \<and> posted (snd (audio_loop (Inr hush # ?rest) ?v ?s)) = posted ?s
       \<and> whisper_calls (snd (audio_loop (Inr hush # ?rest) ?v ?s))
           = whisper_calls ?s @ [frames ?v @ [hush]]
       \<and> audio_loop (Inr hush # ?rest) ?v ?s = audio_loop [Inr hush] ?v ?s"
  proof (rule t)
    show "7 < length (frames ?v @ [hush])" by (simp add: cough_def)
    show "SILENCE_DURATION \<le> silence_elapsed ?v ?s" by (rule e)
    show "whisper ?s (length (whisper_calls ?s)) (concat (frames ?v @ [hush]))
            = Inr ['' Okay, Goodbye'', '' Jarvis. '']"
      by (simp only: f)
    show "''Okay, Goodbye  Jarvis.'' = strip (join '' '' ['' Okay, Goodbye'', '' Jarvis. ''])"
      by (simp only: farewell_text)
    show "contains ''goodbye'' (lower ''Okay, Goodbye  Jarvis.'')
          \<or> contains ''exit'' (lower ''Okay, Goodbye  Jarvis.'')"
      by (simp only: farewell_text simp_thms)
  qed simp_all
  then have r:
    "stdout (snd (audio_loop (Inr hush # ?rest) ?v ?s))
       = stdout (snd (check_context_timeout ?s))
         @ [(''transcription'', [(''text'', ''Okay, Goodbye  Jarvis.'')]),
            (''jarvis_speaking'', [(''text'', ''Goodbye!'')])]
         @ tts_error_events ''Goodbye!'' ?s"
    "tts_calls (snd (audio_loop (Inr hush # ?rest) ?v ?s))
       = tts_calls ?s @ [(''Goodbye!'', current_voice ?s)]"
    "should_stop (snd (audio_loop (Inr hush # ?rest) ?v ?s))"
    "conversation_turns (snd (audio_loop (Inr hush # ?rest) ?v ?s))
       = conversation_turns (snd (check_context_timeout ?s))"
    "posted (snd (audio_loop (Inr hush # ?rest) ?v ?s)) = posted ?s"
    "whisper_calls (snd (audio_loop (Inr hush # ?rest) ?v ?s))
       = whisper_calls ?s @ [frames ?v @ [hush]]"
    by blast+
  have g: "contains ''goodbye'' (lower (strip (join '' '' ['' Okay, Goodbye'', '' Jarvis. ''])))"
    by (simp only: farewell_text)
  have r': "stdout (snd (audio_loop (Inr hush # ?rest) ?v ?s))
       = [(''ready'', []), (''listening'', []), (''user_speaking'', []),
          (''transcription'', [(''text'', ''Okay, Goodbye  Jarvis.'')]),
          (''jarvis_speaking'', [(''text'', ''Goodbye!'')])]"
    "tts_calls (snd (audio_loop (Inr hush # ?rest) ?v ?s)) = [(''Goodbye!'', ''af_bella'')]"
    "conversation_turns (snd (audio_loop (Inr hush # ?rest) ?v ?s)) = []"
    "posted (snd (audio_loop (Inr hush # ?rest) ?v ?s)) = []"
    "whisper_calls (snd (audio_loop (Inr hush # ?rest) ?v ?s)) = [cough 16]"
    unfolding r chk c16 by (simp_all only: f append_Nil append_Nil2 append_Cons)
  show ?thesis
    unfolding split farewell_heard fst_conv snd_conv r'
    using e m r(3) g
    by (simp add: hush_is_silence cough_def del: audio_loop.simps)
qed


section \<open>The list of messages: claim C8\<close>









end
